theory Spec2Isabelle
  imports Complex_Main "HOL-Library.Sublist"
begin

section \<open>Python values\<close>

text \<open>
  A Python \<open>str\<close> is the list of its code points; \<open>bytes\<close> is a list of
  8-bit characters. \<open>str\<close> turns an ASCII literal of the source into a Python string.
\<close>

type_synonym pystr = "nat list"
type_synonym bytes = "char list"

definition str :: "string \<Rightarrow> pystr" where
  "str s = map of_char s"

text \<open>\<open>str.isspace\<close> of one code point, as CPython's Unicode database has it.\<close>

definition py_isspace :: "nat \<Rightarrow> bool" where
  "py_isspace c \<longleftrightarrow>
     (0x09 \<le> c \<and> c \<le> 0x0D) \<or> (0x1C \<le> c \<and> c \<le> 0x20) \<or> c = 0x85 \<or> c = 0xA0 \<or>
     c = 0x1680 \<or> (0x2000 \<le> c \<and> c \<le> 0x200A) \<or> c = 0x2028 \<or> c = 0x2029 \<or>
     c = 0x202F \<or> c = 0x205F \<or> c = 0x3000"

text \<open>\<open>s.strip()\<close>: leading and trailing whitespace removed.\<close>

definition strip :: "pystr \<Rightarrow> pystr" where
  "strip s = rev (dropWhile py_isspace (rev (dropWhile py_isspace s)))"

text \<open>
  A Python \<open>float\<close>: a finite value (a real number; every double is one), the two
  infinities, or not-a-number. JSON text as \<open>json.loads\<close> reads it can produce each.
\<close>

datatype pyfloat = Fin real | PosInf | NegInf | NaN

text \<open>The values a JSON document can hold.\<close>

datatype pyval =
    PNone
  | PBool bool
  | PInt int
  | PFloat pyfloat
  | PStr pystr
  | PList "pyval list"
  | PDict "(pystr \<times> pyval) list"

text \<open>Truth value of a Python object, as \<open>and\<close> and \<open>if\<close> test it.\<close>

fun truthy :: "pyval \<Rightarrow> bool" where
  "truthy PNone = False"
| "truthy (PBool b) = b"
| "truthy (PInt i) = (i \<noteq> 0)"
| "truthy (PFloat x) = (x \<noteq> Fin 0)"
| "truthy (PStr s) = (s \<noteq> [])"
| "truthy (PList xs) = (xs \<noteq> [])"
| "truthy (PDict kvs) = (kvs \<noteq> [])"

type_synonym event = "pystr \<rightharpoonup> pyval"

section \<open>handler.validate_input\<close>

datatype event_type = complete_pipeline | s3_upload | direct_extraction | analysis_only

datatype validation = Valid event_type | Invalid pystr

text \<open>
  \<open>event.get(k, "").strip()\<close>: the default is the empty string; a value that is not a
  string has no \<open>strip\<close> and raises AttributeError (\<open>None\<close> here).
\<close>

definition get_strip :: "event \<Rightarrow> pystr \<Rightarrow> pystr option" where
  "get_strip e k =
     (case e k of
        None \<Rightarrow> Some (strip [])
      | Some (PStr s) \<Rightarrow> Some (strip s)
      | Some _ \<Rightarrow> None)"

definition invalid_format_msg :: pystr where
  "invalid_format_msg = str (''Invalid event format. Expected: complete pipeline (bucket_name + s3_key + job_description), '' @
     ''S3 upload event, direct extraction (bucket_name + s3_key), or analysis only (resume_text + job_description)'')"

text \<open>
  The \<open>if\<close>/\<open>elif\<close> chain of the source in its order; any exception inside the
  \<open>try\<close> gives "Invalid event structure".
\<close>

definition validate_input :: "event \<Rightarrow> validation" where
  "validate_input e =
     (if str ''bucket_name'' \<in> dom e \<and> str ''s3_key'' \<in> dom e \<and> str ''job_description'' \<in> dom e then
        (case get_strip e (str ''job_description'') of
           None \<Rightarrow> Invalid (str ''Invalid event structure'')
         | Some t \<Rightarrow>
             if t = [] then Invalid (str ''Job description cannot be empty'')
             else Valid complete_pipeline)
      else if (case e (str ''Records'') of None \<Rightarrow> False | Some v \<Rightarrow> truthy v) then
        Valid s3_upload
      else if str ''bucket_name'' \<in> dom e \<and> str ''s3_key'' \<in> dom e then
        Valid direct_extraction
      else if str ''resume_text'' \<in> dom e \<and> str ''job_description'' \<in> dom e then
        (case get_strip e (str ''resume_text'') of
           None \<Rightarrow> Invalid (str ''Invalid event structure'')
         | Some r \<Rightarrow>
             if r = [] then Invalid (str ''Resume text cannot be empty'')
             else
               (case get_strip e (str ''job_description'') of
                  None \<Rightarrow> Invalid (str ''Invalid event structure'')
                | Some t \<Rightarrow>
                    if t = [] then Invalid (str ''Job description cannot be empty'')
                    else Valid analysis_only))
      else Invalid invalid_format_msg)"

text \<open>The structural tests of the four shapes, as the claim names them.\<close>

definition has_locator :: "event \<Rightarrow> bool" where
  "has_locator e \<longleftrightarrow> str ''bucket_name'' \<in> dom e \<and> str ''s3_key'' \<in> dom e"

definition has_job_description :: "event \<Rightarrow> bool" where
  "has_job_description e \<longleftrightarrow> str ''job_description'' \<in> dom e"

definition has_records :: "event \<Rightarrow> bool" where
  "has_records e \<longleftrightarrow> (\<exists>v. e (str ''Records'') = Some v \<and> truthy v)"

definition has_resume_text :: "event \<Rightarrow> bool" where
  "has_resume_text e \<longleftrightarrow> str ''resume_text'' \<in> dom e"

text \<open>A field that holds a string which is not empty after trimming.\<close>

definition nonblank :: "event \<Rightarrow> pystr \<Rightarrow> bool" where
  "nonblank e k \<longleftrightarrow> (\<exists>s. e k = Some (PStr s) \<and> strip s \<noteq> [])"

section \<open>textract\_client.TextractClient.\_extract\_text\_async\<close>

datatype job_status = SUCCEEDED | FAILED | IN_PROGRESS | PARTIAL_SUCCESS | OtherStatus pystr

text \<open>
  One call of \<open>get_document_text_detection\<close>: the job status with the optional
  \<open>StatusMessage\<close>, or the exception it raises.
\<close>

datatype client_error = ClientError pystr pystr

datatype poll_outcome =
    JobStatus job_status "pystr option"
  | PollClientError client_error
  | PollException

datatype extract_error =
    NoTextExtracted
  | JobFailed pystr
  | UnexpectedJobStatus pystr
  | JobTimedOut nat
  | AsyncAccessDenied pystr
  | InvalidPdf
  | UnsupportedPdf
  | TextractServiceError pystr pystr
  | UnexpectedAsyncError

datatype extract_result = Extracted pystr | ExtractFailed extract_error

text \<open>
  The Textract service as the polling code sees it: the outcome of starting the job,
  the outcome of the k-th status call, and the text that
  \<open>_parse_async_textract_response\<close> joins from the result pages of a succeeded job.
\<close>

record textract_env =
  start_job :: "client_error option option"
  get_status :: "nat \<Rightarrow> poll_outcome"
  job_text :: pystr

definition max_wait_time :: nat where "max_wait_time = 300"
definition poll_interval :: nat where "poll_interval = 5"

definition async_client_error :: "client_error \<Rightarrow> extract_error" where
  "async_client_error ce =
     (case ce of ClientError code msg \<Rightarrow>
        if code = str ''AccessDeniedException'' then AsyncAccessDenied msg
        else if code = str ''InvalidS3ObjectException'' then InvalidPdf
        else if code = str ''UnsupportedDocumentException'' then UnsupportedPdf
        else TextractServiceError code msg)"

text \<open>
  The \<open>while elapsed_time < max_wait_time\<close> loop. The state is the elapsed time (the
  seconds slept so far) and the number of status calls made; both are returned with the
  result, so that the bound on the loop can be stated.
\<close>

function poll_loop :: "textract_env \<Rightarrow> nat \<Rightarrow> nat \<Rightarrow> extract_result \<times> nat \<times> nat" where
  "poll_loop env elapsed_time polls =
     (if elapsed_time < max_wait_time then
        (let elapsed_time' = elapsed_time + poll_interval in
         case get_status env polls of
           PollClientError ce \<Rightarrow> (ExtractFailed (async_client_error ce), elapsed_time', Suc polls)
         | PollException \<Rightarrow> (ExtractFailed UnexpectedAsyncError, elapsed_time', Suc polls)
         | JobStatus st msg \<Rightarrow>
             (case st of
                SUCCEEDED \<Rightarrow>
                  (if strip (job_text env) = [] then ExtractFailed NoTextExtracted
                   else Extracted (job_text env), elapsed_time', Suc polls)
              | FAILED \<Rightarrow>
                  (ExtractFailed (JobFailed (case msg of None \<Rightarrow> str ''Unknown error'' | Some m \<Rightarrow> m)),
                   elapsed_time', Suc polls)
              | IN_PROGRESS \<Rightarrow> poll_loop env elapsed_time' (Suc polls)
              | PARTIAL_SUCCESS \<Rightarrow> poll_loop env elapsed_time' (Suc polls)
              | OtherStatus s \<Rightarrow> (ExtractFailed (UnexpectedJobStatus s), elapsed_time', Suc polls)))
      else (ExtractFailed (JobTimedOut max_wait_time), elapsed_time, polls))"
  by pat_completeness auto
termination
  by (relation "measure (\<lambda>(env, elapsed_time, polls). max_wait_time - elapsed_time)")
     (auto simp: max_wait_time_def poll_interval_def)

declare poll_loop.simps [simp del]

definition extract_text_async :: "textract_env \<Rightarrow> extract_result \<times> nat \<times> nat" where
  "extract_text_async env =
     (case start_job env of
        Some (Some ce) \<Rightarrow> (ExtractFailed (async_client_error ce), 0, 0)
      | Some None \<Rightarrow> (ExtractFailed UnexpectedAsyncError, 0, 0)
      | None \<Rightarrow> poll_loop env 0 0)"

definition still_running :: "poll_outcome \<Rightarrow> bool" where
  "still_running p \<longleftrightarrow> (\<exists>msg. p = JobStatus IN_PROGRESS msg \<or> p = JobStatus PARTIAL_SUCCESS msg)"

section \<open>bedrock\_client.BedrockClient.\_parse\_analysis\_response\<close>

datatype parse_error =
    NoJsonFound
  | MissingRequiredField pystr
  | InvalidJsonFormat
  | ParseFailed

text \<open>\<open>s.find(c)\<close> and \<open>s.rfind(c)\<close> for a one-character needle; \<open>None\<close> is \<open>-1\<close>.\<close>

definition find_char :: "'a \<Rightarrow> 'a list \<Rightarrow> nat option" where
  "find_char c s = (if c \<in> set s then Some (length (takeWhile (\<lambda>x. x \<noteq> c) s)) else None)"

definition rfind_char :: "'a \<Rightarrow> 'a list \<Rightarrow> nat option" where
  "rfind_char c s =
     (if c \<in> set s then Some (length s - 1 - length (takeWhile (\<lambda>x. x \<noteq> c) (rev s))) else None)"

text \<open>\<open>s[i:j]\<close> for indices that are not negative.\<close>

definition slice :: "'a list \<Rightarrow> nat \<Rightarrow> nat \<Rightarrow> 'a list" where
  "slice s i j = take (j - i) (drop i s)"

text \<open>
  \<open>float(x)\<close>. An integer too large for a double raises OverflowError (\<open>Inl False\<close>:
  an exception that the inner \<open>except (ValueError, TypeError)\<close> does not catch); a
  string that is no number raises ValueError and every other non-number TypeError
  (\<open>Inl True\<close>: caught there). An integer beyond 2^53 is rounded by Python and is not
  here; the clamp below maps both to the same bound. Reading a number from a string is
  the library's, the parameter \<open>float_of_str\<close>.
\<close>

definition py_float :: "(pystr \<Rightarrow> pyfloat option) \<Rightarrow> pyval \<Rightarrow> bool + pyfloat" where
  "py_float float_of_str v =
     (case v of
        PInt i \<Rightarrow> if \<bar>i\<bar> < 2 ^ 1024 - 2 ^ 970 then Inr (Fin (of_int i)) else Inl False
      | PBool b \<Rightarrow> Inr (Fin (if b then 1 else 0))
      | PFloat f \<Rightarrow> Inr f
      | PStr s \<Rightarrow> (case float_of_str s of Some f \<Rightarrow> Inr f | None \<Rightarrow> Inl True)
      | _ \<Rightarrow> Inl True)"

text \<open>\<open>score < 100\<close> and \<open>m > 0\<close> as Python compares a float with an integer.\<close>

fun float_lt_int :: "pyfloat \<Rightarrow> int \<Rightarrow> bool" where
  "float_lt_int (Fin x) n = (x < of_int n)"
| "float_lt_int NegInf n = True"
| "float_lt_int PosInf n = False"
| "float_lt_int NaN n = False"

fun float_gt_int :: "pyfloat \<Rightarrow> int \<Rightarrow> bool" where
  "float_gt_int (Fin x) n = (x > of_int n)"
| "float_gt_int PosInf n = True"
| "float_gt_int NegInf n = False"
| "float_gt_int NaN n = False"

text \<open>
  \<open>max(0, min(100, score))\<close>: \<open>min\<close> keeps its first argument unless the second is
  smaller, \<open>max\<close> unless the second is greater, so the bounds come back as the integers
  \<open>100\<close> and \<open>0\<close>.
\<close>

definition clamp_score :: "pyfloat \<Rightarrow> pyval" where
  "clamp_score score =
     (let m = (if float_lt_int score 100 then PFloat score else PInt 100) in
      if (case m of PFloat f \<Rightarrow> float_gt_int f 0 | _ \<Rightarrow> True) then m else PInt 0)"

definition default_suggestions :: "pyval list" where
  "default_suggestions =
     [PStr (str ''Review job description keywords and incorporate relevant ones into your resume''),
      PStr (str ''Quantify your achievements with specific metrics and numbers''),
      PStr (str ''Tailor your skills section to match the job requirements'')]"

definition required_fields :: "pystr list" where
  "required_fields =
     [str ''missing_keywords'', str ''missing_skills'', str ''suggestions'', str ''compatibility_score'']"

definition is_list :: "pyval option \<Rightarrow> bool" where
  "is_list v = (case v of Some (PList xs) \<Rightarrow> True | _ \<Rightarrow> False)"

definition is_dict :: "pyval option \<Rightarrow> bool" where
  "is_dict v = (case v of Some (PDict kvs) \<Rightarrow> True | _ \<Rightarrow> False)"

text \<open>
  The steps after the four required fields were found, one definition for each
  statement of the source, on the dictionary \<open>d\<close>.
\<close>

definition fix_missing_keywords :: "(pystr \<rightharpoonup> pyval) \<Rightarrow> (pystr \<rightharpoonup> pyval)" where
  "fix_missing_keywords d =
     (if is_list (d (str ''missing_keywords'')) then d else d(str ''missing_keywords'' \<mapsto> PList []))"

definition fix_missing_skills :: "(pystr \<rightharpoonup> pyval) \<Rightarrow> (pystr \<rightharpoonup> pyval)" where
  "fix_missing_skills d =
     (if is_dict (d (str ''missing_skills'')) then d
      else d(str ''missing_skills'' \<mapsto> PDict [(str ''technical'', PList []), (str ''soft'', PList [])]))"

definition fix_suggestions :: "(pystr \<rightharpoonup> pyval) \<Rightarrow> (pystr \<rightharpoonup> pyval)" where
  "fix_suggestions d =
     (let d' = (if is_list (d (str ''suggestions'')) then d else d(str ''suggestions'' \<mapsto> PList []));
          sugg = (case d' (str ''suggestions'') of Some (PList xs) \<Rightarrow> xs | _ \<Rightarrow> [])
      in if length sugg < 3
         then d'(str ''suggestions'' \<mapsto> PList (take 3 (sugg @ default_suggestions)))
         else d')"

text \<open>
  The score: a missing key is a KeyError and an OverflowError is not caught by the inner
  handler, so both end in the outer \<open>except Exception\<close>.
\<close>

definition fix_score ::
  "(pystr \<Rightarrow> pyfloat option) \<Rightarrow> (pystr \<rightharpoonup> pyval) \<Rightarrow> parse_error + (pystr \<rightharpoonup> pyval)" where
  "fix_score float_of_str d =
     (case d (str ''compatibility_score'') of
        None \<Rightarrow> Inl ParseFailed
      | Some v \<Rightarrow>
          (case py_float float_of_str v of
             Inr score \<Rightarrow> Inr (d(str ''compatibility_score'' \<mapsto> clamp_score score))
           | Inl caught \<Rightarrow>
               if caught then Inr (d(str ''compatibility_score'' \<mapsto> PInt 50))
               else Inl ParseFailed))"

definition add_optional_defaults :: "(pystr \<rightharpoonup> pyval) \<Rightarrow> (pystr \<rightharpoonup> pyval)" where
  "add_optional_defaults d =
     (let d' = (if str ''strengths'' \<in> dom d then d else d(str ''strengths'' \<mapsto> PList []))
      in if str ''areas_for_improvement'' \<in> dom d' then d'
         else d'(str ''areas_for_improvement'' \<mapsto> PList []))"

definition repair_analysis ::
  "(pystr \<Rightarrow> pyfloat option) \<Rightarrow> (pystr \<rightharpoonup> pyval) \<Rightarrow> parse_error + (pystr \<rightharpoonup> pyval)" where
  "repair_analysis float_of_str d =
     (case fix_score float_of_str (fix_suggestions (fix_missing_skills (fix_missing_keywords d))) of
        Inl e \<Rightarrow> Inl e
      | Inr d' \<Rightarrow> Inr (add_optional_defaults d'))"

text \<open>
  What \<open>json.loads\<close> does with a text: it returns the document, raises
  JSONDecodeError, or raises something else (a plain ValueError on an integer literal
  beyond the digit limit, RecursionError on deep nesting). The text handed to it starts
  with a brace, so what it returns is a dictionary.
\<close>

datatype json_outcome =
    Loaded "pystr \<rightharpoonup> pyval"
  | JSONDecodeError
  | JsonRaises

text \<open>
  The whole function. \<open>json.loads\<close> is the library's, the parameter \<open>json_loads\<close>.
  JSONDecodeError has a handler of its own; every other exception ends in the outer
  \<open>except Exception\<close>.
\<close>

definition parse_analysis_response ::
  "(pystr \<Rightarrow> json_outcome) \<Rightarrow> (pystr \<Rightarrow> pyfloat option) \<Rightarrow> pystr \<Rightarrow>
     parse_error + (pystr \<rightharpoonup> pyval)" where
  "parse_analysis_response json_loads float_of_str response_text =
     (let text = strip response_text in
      case (find_char (of_char (CHR ''{'')) text, rfind_char (of_char (CHR ''}'')) text) of
        (Some start_idx, Some r) \<Rightarrow>
          (case json_loads (slice text start_idx (r + 1)) of
             JSONDecodeError \<Rightarrow> Inl InvalidJsonFormat
           | JsonRaises \<Rightarrow> Inl ParseFailed
           | Loaded d \<Rightarrow>
               (case filter (\<lambda>f. f \<notin> dom d) required_fields of
                  f # _ \<Rightarrow> Inl (MissingRequiredField f)
                | [] \<Rightarrow> repair_analysis float_of_str d))
      | _ \<Rightarrow> Inl NoJsonFound)"

definition score_in_range :: "pyval \<Rightarrow> bool" where
  "score_in_range v =
     (case v of
        PInt i \<Rightarrow> 0 \<le> i \<and> i \<le> 100
      | PFloat (Fin x) \<Rightarrow> 0 \<le> x \<and> x \<le> 100
      | _ \<Rightarrow> False)"

definition suggestions_ok :: "(pystr \<rightharpoonup> pyval) \<Rightarrow> bool" where
  "suggestions_ok d \<longleftrightarrow> (\<exists>xs. d (str ''suggestions'') = Some (PList xs) \<and> 3 \<le> length xs)"

definition score_ok :: "(pystr \<rightharpoonup> pyval) \<Rightarrow> bool" where
  "score_ok d \<longleftrightarrow> (\<exists>sc. d (str ''compatibility_score'') = Some sc \<and> score_in_range sc)"

text \<open>A stand-in for \<open>json.loads\<close> on one document, for the example below.\<close>

definition sample_json_loads :: "pystr \<Rightarrow> json_outcome" where
  \<open>sample_json_loads t =
     (if t = str ''{"missing_keywords": 3, "missing_skills": {}, "suggestions": ["Add AWS"], "compatibility_score": 150}''
      then Loaded [str ''missing_keywords'' \<mapsto> PInt 3, str ''missing_skills'' \<mapsto> PDict [],
                   str ''suggestions'' \<mapsto> PList [PStr (str ''Add AWS'')],
                   str ''compatibility_score'' \<mapsto> PInt 150]
      else JSONDecodeError)\<close>

section \<open>handler.apply\_pii\_redaction\_to\_text\<close>

text \<open>
  One entity of Comprehend's \<open>detect_pii_entities\<close> response. The score is a double,
  read as the real number it is; the offsets are Python integers.
\<close>

record pii_entity =
  Score :: real
  BeginOffset :: int
  EndOffset :: int
  Type :: pystr

text \<open>
  What the detection call does: it returns the entities, raises botocore's ClientError,
  or raises something else (also: \<open>boto3\<close> cannot be imported, no client).
\<close>

datatype detect_outcome = Entities "pii_entity list" | DetectClientError | DetectException

type_synonym detector = "pystr \<Rightarrow> detect_outcome"

text \<open>\<open>s[:i]\<close> and \<open>s[i:]\<close> for any integer \<open>i\<close>: a negative index counts from the end.\<close>

definition py_take :: "int \<Rightarrow> 'a list \<Rightarrow> 'a list" where
  "py_take i s = (if i < 0 then take (nat (int (length s) + i)) s else take (nat i) s)"

definition py_drop :: "int \<Rightarrow> 'a list \<Rightarrow> 'a list" where
  "py_drop i s = (if i < 0 then drop (nat (int (length s) + i)) s else drop (nat i) s)"

definition star :: nat where
  "star = of_char (CHR ''*'')"

text \<open>
  The literals \<open>0.7\<close> and \<open>0.5\<close> are the doubles nearest to them; \<open>0.7\<close> is the
  double 3152519739159347 / 2^52.
\<close>

definition text_threshold :: real where
  "text_threshold = 3152519739159347 / 4503599627370496"

definition document_threshold :: real where
  "document_threshold = 1 / 2"

text \<open>
  The body of the \<open>for entity in entities\<close> loop: the state is the text redacted so
  far and the count of redactions.
\<close>

definition redact_entity :: "real \<Rightarrow> pystr \<times> nat \<Rightarrow> pii_entity \<Rightarrow> pystr \<times> nat" where
  "redact_entity threshold st entity =
     (case st of (redacted_text, redaction_count) \<Rightarrow>
        if Score entity \<ge> threshold then
          (let pii_length = EndOffset entity - BeginOffset entity;
               redaction = replicate (nat (min pii_length 8)) star
           in (py_take (BeginOffset entity) redacted_text @ redaction @
                 py_drop (EndOffset entity) redacted_text,
               redaction_count + 1))
        else (redacted_text, redaction_count))"

text \<open>
  \<open>entities.sort(key=lambda x: x['BeginOffset'], reverse=True)\<close>: a stable sort on
  descending begin offsets.
\<close>

definition sort_entities :: "pii_entity list \<Rightarrow> pii_entity list" where
  "sort_entities entities = sort_key (\<lambda>x. - BeginOffset x) entities"

text \<open>The returned dictionary with its keys \<open>success\<close>, \<open>text\<close> and \<open>redacted\<close>.\<close>

record pii_result =
  pii_success :: bool
  pii_text :: pystr
  pii_redacted :: bool

text \<open>
  The function returns its result; the model returns with it the list of texts that
  were submitted to the detection service, in order.
\<close>

definition apply_pii_redaction_to_text :: "detector \<Rightarrow> pystr \<Rightarrow> pii_result \<times> pystr list" where
  "apply_pii_redaction_to_text detect_pii_entities txt =
     (if txt = [] \<or> length (strip txt) < 10 then
        (\<lparr>pii_success = True, pii_text = txt, pii_redacted = False\<rparr>, [])
      else
        (let submitted = take 5000 txt in
         case detect_pii_entities submitted of
           DetectClientError \<Rightarrow> (\<lparr>pii_success = True, pii_text = txt, pii_redacted = False\<rparr>, [submitted])
         | DetectException \<Rightarrow> (\<lparr>pii_success = True, pii_text = txt, pii_redacted = False\<rparr>, [submitted])
         | Entities entities \<Rightarrow>
             if entities = [] then (\<lparr>pii_success = True, pii_text = txt, pii_redacted = False\<rparr>, [submitted])
             else
               (case foldl (redact_entity text_threshold) (txt, 0) (sort_entities entities) of
                  (redacted_text, redaction_count) \<Rightarrow>
                    if redaction_count > 0
                    then (\<lparr>pii_success = True, pii_text = redacted_text, pii_redacted = True\<rparr>, [submitted])
                    else (\<lparr>pii_success = True, pii_text = txt, pii_redacted = False\<rparr>, [submitted]))))"

section \<open>pii-redaction-lambda.redact\_pii\_from\_text\<close>

definition redact_pii_from_text :: "detector \<Rightarrow> pystr \<Rightarrow> pystr" where
  "redact_pii_from_text detect_pii_entities txt =
     (case detect_pii_entities txt of
        DetectClientError \<Rightarrow> txt
      | DetectException \<Rightarrow> txt
      | Entities entities \<Rightarrow>
          if entities = [] then txt
          else fst (foldl (redact_entity document_threshold) (txt, 0) (sort_entities entities)))"

text \<open>
  Detected spans as the text they were detected in has them: each is a non-empty range
  of the submitted text, and no two overlap.
\<close>

definition apart :: "pii_entity \<Rightarrow> pii_entity \<Rightarrow> bool" where
  "apart x y \<longleftrightarrow> EndOffset x \<le> BeginOffset y \<or> EndOffset y \<le> BeginOffset x"

fun pairwise_apart :: "pii_entity list \<Rightarrow> bool" where
  "pairwise_apart [] = True"
| "pairwise_apart (x # xs) = (list_all (apart x) xs \<and> pairwise_apart xs)"

definition span_within :: "nat \<Rightarrow> pii_entity \<Rightarrow> bool" where
  "span_within n x \<longleftrightarrow> 0 \<le> BeginOffset x \<and> BeginOffset x < EndOffset x \<and> EndOffset x \<le> int n"

definition disjoint_spans :: "nat \<Rightarrow> pii_entity list \<Rightarrow> bool" where
  "disjoint_spans n es \<longleftrightarrow> list_all (span_within n) es \<and> pairwise_apart es"

text \<open>
  The sorted spans as the loop meets them: each ends where the one before it begins, or
  earlier, and the first ends at \<open>B\<close> or earlier.
\<close>

fun descending_chain :: "int \<Rightarrow> pii_entity list \<Rightarrow> bool" where
  "descending_chain B [] = True"
| "descending_chain B (x # xs) =
     (0 \<le> BeginOffset x \<and> BeginOffset x \<le> EndOffset x \<and> EndOffset x \<le> B \<and>
      descending_chain (BeginOffset x) xs)"

text \<open>An example response with two overlapping spans, and a text for it.\<close>

definition overlap_text :: pystr where
  "overlap_text = str ''0123456789abcdefghijABCDEFGHIJklmnopqrst''"

definition overlap_detector :: detector where
  "overlap_detector submitted =
     Entities [\<lparr>Score = 0.99, BeginOffset = 10, EndOffset = 20, Type = str ''PHONE''\<rparr>,
               \<lparr>Score = 0.99, BeginOffset = 5, EndOffset = 30, Type = str ''ADDRESS''\<rparr>]"

text \<open>An example response with one span of 20 characters, and a text for it.\<close>

definition email_text :: pystr where
  "email_text = str ''Contact: john.doe@example.com now''"

definition email_detector :: detector where
  "email_detector submitted =
     Entities [\<lparr>Score = 0.99, BeginOffset = 9, EndOffset = 29, Type = str ''EMAIL''\<rparr>]"

section \<open>The services the handlers call\<close>

text \<open>An item of the resume cache table, keyed by the file hash.\<close>

record cache_item =
  item_file_hash :: pystr
  item_extracted_text :: pystr
  item_original_filename :: pystr
  item_ttl :: int

type_synonym resume_cache = "pystr \<rightharpoonup> cache_item"

text \<open>The two links of a stored report, and the package of both.\<close>

record report_link =
  s3_key :: pystr
  download_url :: pystr
  expires_at :: pystr

record report_package =
  report_id :: pystr
  timestamp :: pystr
  metadata :: pyval
  markdown :: report_link
  html :: report_link

text \<open>
  \<open>create_complete_report_package\<close> returns the package, returns
  \<open>{"success": False, "error": ...}\<close>, or (a collaborator handed in by the caller)
  raises.
\<close>

datatype report_outcome = Package report_package | ReportFailed pystr | ReportRaises pystr

text \<open>
  The environment of one invocation: what each external call answers. The S3 object,
  the hash function, whether the cache table can be read and written, the clock, the
  text extraction (\<open>Inl\<close> its error message), the PII detection, the model call with
  its parsed analysis (\<open>Inl\<close> its error message), the report generator, and the
  \<open>REPORTS_BUCKET\<close> environment variable.
\<close>

record services =
  s3_get_object :: "pystr \<Rightarrow> pystr \<Rightarrow> bytes option"
  sha256_hexdigest :: "bytes \<Rightarrow> pystr"
  dynamodb_get_fails :: bool
  dynamodb_put_fails :: bool
  time_now :: int
  extract_text_from_s3_pdf :: "pystr \<Rightarrow> pystr \<Rightarrow> pystr + pystr"
  detect_pii_entities :: detector
  invoke_analysis :: "pystr \<Rightarrow> pystr \<Rightarrow> pystr + (pystr \<rightharpoonup> pyval)"
  create_complete_report_package :: "(pystr \<rightharpoonup> pyval) \<Rightarrow> pystr \<Rightarrow> pystr \<Rightarrow> pystr \<Rightarrow> report_outcome"
  env_REPORTS_BUCKET :: "pystr option"

section \<open>file\_hash\_utils and dynamodb\_client\<close>

text \<open>\<open>calculate_file_hash\<close> raises ValueError on empty content (\<open>None\<close>).\<close>

definition calculate_file_hash :: "services \<Rightarrow> bytes \<Rightarrow> pystr option" where
  "calculate_file_hash env file_content =
     (if file_content = [] then None else Some (sha256_hexdigest env file_content))"

text \<open>\<open>calculate_s3_file_hash\<close> catches every exception and returns \<open>None\<close>.\<close>

definition calculate_s3_file_hash :: "services \<Rightarrow> pystr \<Rightarrow> pystr \<Rightarrow> pystr option" where
  "calculate_s3_file_hash env bucket_name key =
     (case s3_get_object env bucket_name key of
        None \<Rightarrow> None
      | Some file_content \<Rightarrow> calculate_file_hash env file_content)"

definition get_resume_cache :: "services \<Rightarrow> resume_cache \<Rightarrow> pystr \<Rightarrow> cache_item option" where
  "get_resume_cache env cache file_hash = (if dynamodb_get_fails env then None else cache file_hash)"

definition put_resume_cache ::
  "services \<Rightarrow> resume_cache \<Rightarrow> pystr \<Rightarrow> pystr \<Rightarrow> pystr \<Rightarrow> bool \<times> resume_cache" where
  "put_resume_cache env cache file_hash extracted filename =
     (if dynamodb_put_fails env then (False, cache)
      else (True, cache(file_hash \<mapsto>
              \<lparr>item_file_hash = file_hash, item_extracted_text = extracted,
               item_original_filename = filename, item_ttl = time_now env + 12 * 60 * 60\<rparr>)))"

section \<open>deduplication\_service.DeduplicationService\<close>

record dedup_result =
  is_duplicate :: bool
  file_hash :: "pystr option"
  cached_data :: "cache_item option"
  message :: pystr
  error :: "pystr option"

text \<open>
  \<open>check_file_deduplication\<close>. Nothing inside its \<open>try\<close> can raise in this model,
  since the two helpers catch their own exceptions; the \<open>except\<close> branch of the source
  gives the same shape as the first branch here with another message.
\<close>

definition check_file_deduplication ::
  "services \<Rightarrow> resume_cache \<Rightarrow> pystr \<Rightarrow> pystr \<Rightarrow> dedup_result" where
  "check_file_deduplication env cache bucket_name key =
     (case calculate_s3_file_hash env bucket_name key of
        None \<Rightarrow>
          \<lparr>is_duplicate = False, file_hash = None, cached_data = None,
           message = str ''Failed to calculate file hash'', error = Some (str ''Hash calculation failed'')\<rparr>
      | Some h \<Rightarrow>
          if h = [] then
            \<lparr>is_duplicate = False, file_hash = None, cached_data = None,
             message = str ''Failed to calculate file hash'', error = Some (str ''Hash calculation failed'')\<rparr>
          else
            (case get_resume_cache env cache h of
               Some item \<Rightarrow>
                 \<lparr>is_duplicate = True, file_hash = Some h, cached_data = Some item,
                  message = str ''Resume already processed - using existing data from ''
                              @ item_original_filename item,
                  error = None\<rparr>
             | None \<Rightarrow>
                 \<lparr>is_duplicate = False, file_hash = Some h, cached_data = None,
                  message = str ''File is unique - proceeding with processing'', error = None\<rparr>))"

definition store_processed_file ::
  "services \<Rightarrow> resume_cache \<Rightarrow> pystr \<Rightarrow> pystr \<Rightarrow> pystr \<Rightarrow> bool \<times> resume_cache" where
  "store_processed_file env cache h extracted filename = put_resume_cache env cache h extracted filename"

section \<open>bedrock\_client.BedrockClient.analyze\_resume\_vs\_job\_description\<close>

definition analyze_resume_vs_job_description ::
  "services \<Rightarrow> pystr \<Rightarrow> pystr \<Rightarrow> pystr + (pystr \<rightharpoonup> pyval)" where
  "analyze_resume_vs_job_description env resume_text job_description =
     (if strip resume_text = [] then Inl (str ''Resume text is empty or invalid'')
      else if strip job_description = [] then Inl (str ''Job description is empty or invalid'')
      else invoke_analysis env resume_text job_description)"

section \<open>The response envelopes of handler.py\<close>

record analysis_summary =
  compatibility_score :: pyval
  missing_keywords_count :: nat
  suggestions_count :: nat
  strengths_count :: nat

text \<open>The \<open>reports\<close> entry: the stored package, or the note that stands in for it.\<close>

datatype reports_entry =
    StoredReports report_package
  | ReportsNote pystr pystr pystr "pystr option"

record pipeline_body =
  text_extraction :: pystr
  deduplication_status :: pystr
  deduplication_message :: pystr
  deduplication_file_hash :: pystr
  resume_file :: pystr
  resume_filename :: pystr
  job_title :: pystr
  extracted_text_length :: nat
  job_description_length :: nat
  pipeline_summary :: analysis_summary
  pipeline_reports :: report_package

record analysis_body =
  analysis_only_summary :: analysis_summary
  analysis_reports :: reports_entry
  execution_mode :: "pystr option"

datatype response_body = PipelineCompleted pipeline_body | AnalysisOnly analysis_body

text \<open>
  \<open>create_error_response(status, message)\<close> with \<open>success = False\<close>, or
  \<open>create_success_response(data)\<close> with status 200 and \<open>success = True\<close>.
\<close>

datatype response = ErrorResponse nat pystr | SuccessResponse response_body

text \<open>\<open>len(x)\<close>: TypeError (\<open>None\<close>) for a value without a length.\<close>

fun py_len :: "pyval \<Rightarrow> nat option" where
  "py_len (PStr s) = Some (length s)"
| "py_len (PList xs) = Some (length xs)"
| "py_len (PDict kvs) = Some (length kvs)"
| "py_len _ = None"

text \<open>\<open>len(analysis_data.get(key, []))\<close>.\<close>

definition len_of_field :: "(pystr \<rightharpoonup> pyval) \<Rightarrow> pystr \<Rightarrow> nat option" where
  "len_of_field analysis_data key =
     (case analysis_data key of None \<Rightarrow> Some 0 | Some v \<Rightarrow> py_len v)"

text \<open>
  The \<open>analysis_summary\<close> dictionary of the responses, given the score: \<open>None\<close> when
  one of the three \<open>len\<close> calls raises TypeError.
\<close>

definition make_summary :: "(pystr \<rightharpoonup> pyval) \<Rightarrow> pyval \<Rightarrow> analysis_summary option" where
  "make_summary analysis_data score =
     (case (len_of_field analysis_data (str ''missing_keywords''),
            len_of_field analysis_data (str ''suggestions''),
            len_of_field analysis_data (str ''strengths'')) of
        (Some k, Some s, Some t) \<Rightarrow>
          Some \<lparr>compatibility_score = score, missing_keywords_count = k,
                suggestions_count = s, strengths_count = t\<rparr>
      | _ \<Rightarrow> None)"

definition missing_parameter :: "pystr \<Rightarrow> response" where
  "missing_parameter key =
     ErrorResponse 400 (str ''Missing required parameter: '' @ [of_char (CHR 0x27)] @ key @ [of_char (CHR 0x27)])"

section \<open>handler.handle\_complete\_pipeline\<close>

text \<open>
  The event of a complete-pipeline invocation, after \<open>validate_input\<close> found the three
  required keys; the optional keys may be absent.
\<close>

record pipeline_event =
  ev_bucket_name :: pystr
  ev_s3_key :: pystr
  ev_job_description :: pystr
  ev_reports_bucket :: "pystr option"
  ev_resume_filename :: "pystr option"
  ev_job_title :: "pystr option"

text \<open>\<open>s3_key.split("/")[-1]\<close>: what follows the last slash.\<close>

definition last_segment :: "pystr \<Rightarrow> pystr" where
  "last_segment key = rev (takeWhile (\<lambda>c. c \<noteq> of_char (CHR ''/'')) (rev key))"

text \<open>\<open>event.get("reports_bucket", os.environ.get("REPORTS_BUCKET", bucket_name))\<close>.\<close>

definition pipeline_reports_bucket :: "services \<Rightarrow> pipeline_event \<Rightarrow> pystr" where
  "pipeline_reports_bucket env event =
     (case ev_reports_bucket event of
        Some b \<Rightarrow> b
      | None \<Rightarrow> (case env_REPORTS_BUCKET env of Some b \<Rightarrow> b | None \<Rightarrow> ev_bucket_name event))"

text \<open>
  Steps 3 to 5 of the pipeline, from the extracted or cached text on: analysis, report,
  response. They do not touch the cache.
\<close>

definition analyze_and_report ::
  "services \<Rightarrow> pipeline_event \<Rightarrow> dedup_result \<Rightarrow> pystr \<Rightarrow> pystr \<Rightarrow> response" where
  "analyze_and_report env event dedup extracted processing_status =
     (let reports_bucket = pipeline_reports_bucket env event;
          filename =
            (case ev_resume_filename event of Some f \<Rightarrow> f | None \<Rightarrow> last_segment (ev_s3_key event));
          title = (case ev_job_title event of Some t \<Rightarrow> t | None \<Rightarrow> str ''Position'')
      in case analyze_resume_vs_job_description env extracted (ev_job_description event) of
           Inl err \<Rightarrow> ErrorResponse 422 (str ''AI analysis failed: '' @ err)
         | Inr analysis_data \<Rightarrow>
             (case analysis_data (str ''compatibility_score'') of
                None \<Rightarrow> missing_parameter (str ''compatibility_score'')
              | Some score \<Rightarrow>
                  (case create_complete_report_package env analysis_data reports_bucket filename title of
                     ReportRaises e \<Rightarrow> ErrorResponse 500 (str ''Failed to complete processing pipeline'')
                   | ReportFailed err \<Rightarrow> ErrorResponse 500 (str ''Report generation failed: '' @ err)
                   | Package package \<Rightarrow>
                       (case make_summary analysis_data score of
                          None \<Rightarrow> ErrorResponse 500 (str ''Failed to complete processing pipeline'')
                        | Some summary \<Rightarrow>
                            SuccessResponse (PipelineCompleted
                              \<lparr>text_extraction = processing_status,
                               deduplication_status = processing_status,
                               deduplication_message = message dedup,
                               deduplication_file_hash =
                                 (case file_hash dedup of
                                    Some h \<Rightarrow> if h = [] then str ''unknown'' else take 8 h @ str ''...''
                                  | None \<Rightarrow> str ''unknown''),
                               resume_file = str ''s3://'' @ ev_bucket_name event @ str ''/'' @ ev_s3_key event,
                               resume_filename = filename,
                               job_title = title,
                               extracted_text_length = length extracted,
                               job_description_length = length (ev_job_description event),
                               pipeline_summary = summary,
                               pipeline_reports = package\<rparr>)))))"

text \<open>
  The whole handler: the response, the cache after the invocation, and what
  \<open>store_processed_file\<close> returned when it was called.
\<close>

definition handle_complete_pipeline ::
  "services \<Rightarrow> resume_cache \<Rightarrow> pipeline_event \<Rightarrow> response \<times> resume_cache \<times> bool option" where
  "handle_complete_pipeline env cache event =
     (let filename =
            (case ev_resume_filename event of Some f \<Rightarrow> f | None \<Rightarrow> last_segment (ev_s3_key event));
          dedup = check_file_deduplication env cache (ev_bucket_name event) (ev_s3_key event)
      in if is_duplicate dedup then
           (case cached_data dedup of
              None \<Rightarrow> (ErrorResponse 500 (str ''Failed to complete processing pipeline''), cache, None)
            | Some item \<Rightarrow>
                (analyze_and_report env event dedup (item_extracted_text item) (str ''deduplicated''),
                 cache, None))
         else
           (case extract_text_from_s3_pdf env (ev_bucket_name event) (ev_s3_key event) of
              Inl err \<Rightarrow> (ErrorResponse 422 (str ''Text extraction failed: '' @ err), cache, None)
            | Inr raw_text \<Rightarrow>
                (let extracted = pii_text (fst (apply_pii_redaction_to_text (detect_pii_entities env) raw_text));
                     (stored, cache') =
                        (case file_hash dedup of
                           None \<Rightarrow> (None, cache)
                         | Some h \<Rightarrow>
                             if h = [] then (None, cache)
                             else (case store_processed_file env cache h extracted filename of
                                     (ok, c) \<Rightarrow> (Some ok, c)))
                 in (analyze_and_report env event dedup extracted (str ''processed''), cache', stored))))"

section \<open>handler.handle\_complete\_analysis\<close>

record analysis_event =
  ev_resume_text :: pystr
  ev_analysis_job_description :: pystr
  ev_analysis_reports_bucket :: "pystr option"
  ev_analysis_resume_filename :: "pystr option"
  ev_analysis_job_title :: "pystr option"

text \<open>\<open>event.get("reports_bucket", os.environ.get("REPORTS_BUCKET", "ats-buddy-reports"))\<close>.\<close>

definition analysis_reports_bucket :: "services \<Rightarrow> analysis_event \<Rightarrow> pystr" where
  "analysis_reports_bucket env event =
     (case ev_analysis_reports_bucket event of
        Some b \<Rightarrow> b
      | None \<Rightarrow> (case env_REPORTS_BUCKET env of Some b \<Rightarrow> b | None \<Rightarrow> str ''ats-buddy-reports''))"

definition should_generate_reports :: "pystr \<Rightarrow> bool" where
  "should_generate_reports reports_bucket \<longleftrightarrow>
     reports_bucket \<noteq> [] \<and> reports_bucket \<noteq> str ''ats-buddy-reports'' \<and>
     \<not> prefix (str ''local-'') reports_bucket"

definition not_saved_message :: pystr where
  "not_saved_message = str ''Analysis completed successfully but reports were not saved to S3''"

definition local_mode_message :: pystr where
  "local_mode_message = str ''Analysis completed successfully (local mode - no S3 storage)''"

text \<open>The response that both failure branches of the report step build.\<close>

definition local_fallback :: "analysis_summary \<Rightarrow> pystr \<Rightarrow> pystr \<Rightarrow> pystr \<Rightarrow> response" where
  "local_fallback summary filename title err =
     SuccessResponse (AnalysisOnly
       \<lparr>analysis_only_summary = summary,
        analysis_reports =
          ReportsNote (str ''local-'' @ filename @ str ''-'' @ title) (str ''local-execution'')
            not_saved_message (Some err),
        execution_mode = Some (str ''local_fallback'')\<rparr>)"

definition handle_complete_analysis :: "services \<Rightarrow> analysis_event \<Rightarrow> response" where
  "handle_complete_analysis env event =
     (let reports_bucket = analysis_reports_bucket env event;
          filename = (case ev_analysis_resume_filename event of Some f \<Rightarrow> f | None \<Rightarrow> str ''resume.txt'');
          title = (case ev_analysis_job_title event of Some t \<Rightarrow> t | None \<Rightarrow> str ''Position'')
      in case analyze_resume_vs_job_description env (ev_resume_text event)
                (ev_analysis_job_description event) of
           Inl err \<Rightarrow> ErrorResponse 422 (str ''AI analysis failed: '' @ err)
         | Inr analysis_data \<Rightarrow>
             (case analysis_data (str ''compatibility_score'') of
                None \<Rightarrow> missing_parameter (str ''compatibility_score'')
              | Some score \<Rightarrow>
                  (case make_summary analysis_data score of
                     None \<Rightarrow> ErrorResponse 500 (str ''Failed to complete analysis pipeline'')
                   | Some summary \<Rightarrow>
                       if should_generate_reports reports_bucket then
                         (case create_complete_report_package env analysis_data reports_bucket filename title of
                            Package package \<Rightarrow>
                              SuccessResponse (AnalysisOnly
                                \<lparr>analysis_only_summary = summary,
                                 analysis_reports = StoredReports package,
                                 execution_mode = None\<rparr>)
                          | ReportFailed err \<Rightarrow> local_fallback summary filename title err
                          | ReportRaises err \<Rightarrow> local_fallback summary filename title err)
                       else
                         SuccessResponse (AnalysisOnly
                           \<lparr>analysis_only_summary = summary,
                            analysis_reports =
                              ReportsNote (str ''local-'' @ filename @ str ''-'' @ title)
                                (str ''local-execution'') local_mode_message None,
                            execution_mode = Some (str ''local'')\<rparr>))))"

text \<open>A report generator that fails on every call, by an error result or by raising.\<close>

definition report_generation_fails ::
  "((pystr \<rightharpoonup> pyval) \<Rightarrow> pystr \<Rightarrow> pystr \<Rightarrow> pystr \<Rightarrow> report_outcome) \<Rightarrow> bool" where
  "report_generation_fails gen \<longleftrightarrow>
     (\<forall>d b f t. \<exists>e. gen d b f t = ReportFailed e \<or> gen d b f t = ReportRaises e)"

text \<open>
  A failure of the deduplication layer on the way to the lookup result: the object
  cannot be read or is empty (no hash), or the cache table cannot be read.
\<close>

definition dedup_lookup_fails :: "services \<Rightarrow> pystr \<Rightarrow> pystr \<Rightarrow> bool" where
  "dedup_lookup_fails env bucket_name key \<longleftrightarrow>
     calculate_s3_file_hash env bucket_name key = None \<or>
     calculate_s3_file_hash env bucket_name key = Some [] \<or>
     dynamodb_get_fails env"

text \<open>
  Two responses with the same outcome: the same error, or success bodies that agree on
  everything but the message and hash prefix of the deduplication entry.
\<close>

definition same_outcome :: "response \<Rightarrow> response \<Rightarrow> bool" where
  "same_outcome r1 r2 =
     (case (r1, r2) of
        (ErrorResponse c1 m1, ErrorResponse c2 m2) \<Rightarrow> c1 = c2 \<and> m1 = m2
      | (SuccessResponse (PipelineCompleted p1), SuccessResponse (PipelineCompleted p2)) \<Rightarrow>
          p1\<lparr>deduplication_message := [], deduplication_file_hash := []\<rparr> =
          p2\<lparr>deduplication_message := [], deduplication_file_hash := []\<rparr>
      | _ \<Rightarrow> False)"

text \<open>An environment in which every service answers, an event for each handler, and a
  report generator that fails, for the examples below.\<close>

definition sample_analysis :: "pystr \<rightharpoonup> pyval" where
  "sample_analysis =
     [str ''compatibility_score'' \<mapsto> PInt 75,
      str ''suggestions'' \<mapsto> PList [PStr (str ''a''), PStr (str ''b''), PStr (str ''c'')],
      str ''missing_keywords'' \<mapsto> PList [PStr (str ''AWS'')]]"

definition sample_package :: report_package where
  "sample_package =
     \<lparr>report_id = str ''r1'', timestamp = str ''t1'', metadata = PNone,
      markdown = \<lparr>s3_key = str ''r1.md'', download_url = str ''https://m'', expires_at = str ''t2''\<rparr>,
      html = \<lparr>s3_key = str ''r1.html'', download_url = str ''https://h'', expires_at = str ''t2''\<rparr>\<rparr>"

definition sample_services :: services where
  "sample_services =
     \<lparr>s3_get_object = (\<lambda>b k. Some ''%PDF-1.4 resume''),
      sha256_hexdigest = (\<lambda>c. str ''3a7bd3e2360a3d29''),
      dynamodb_get_fails = False,
      dynamodb_put_fails = False,
      time_now = 1700000000,
      extract_text_from_s3_pdf = (\<lambda>b k. Inr (str ''Jane Doe - Python developer'')),
      detect_pii_entities = (\<lambda>t. Entities []),
      invoke_analysis = (\<lambda>r j. Inr sample_analysis),
      create_complete_report_package = (\<lambda>d b f t. Package sample_package),
      env_REPORTS_BUCKET = Some (str ''ats-reports'')\<rparr>"

definition sample_pipeline_event :: pipeline_event where
  "sample_pipeline_event =
     \<lparr>ev_bucket_name = str ''resumes'', ev_s3_key = str ''uploads/cv.pdf'',
      ev_job_description = str ''Python developer with AWS'',
      ev_reports_bucket = None, ev_resume_filename = None, ev_job_title = None\<rparr>"

definition sample_analysis_event :: analysis_event where
  "sample_analysis_event =
     \<lparr>ev_resume_text = str ''Jane Doe - Python developer'',
      ev_analysis_job_description = str ''Python developer with AWS'',
      ev_analysis_reports_bucket = None, ev_analysis_resume_filename = None,
      ev_analysis_job_title = None\<rparr>"

definition failing_reports :: "(pystr \<rightharpoonup> pyval) \<Rightarrow> pystr \<Rightarrow> pystr \<Rightarrow> pystr \<Rightarrow> report_outcome" where
  "failing_reports d b f t = ReportFailed (str ''Failed to store reports in S3'')"

definition sample_cached_item :: cache_item where
  "sample_cached_item =
     \<lparr>item_file_hash = str ''3a7bd3e2360a3d29'',
      item_extracted_text = str ''Jane Doe - Python developer'',
      item_original_filename = str ''cv.pdf'', item_ttl = 1700000000 + 12 * 60 * 60\<rparr>"

text \<open>
  The deduplication status that a response carries: an error envelope has none. A model
  call that fails, for the examples below.
\<close>

definition deduplication_status_of :: "response \<Rightarrow> pystr option" where
  "deduplication_status_of r =
     (case r of
        SuccessResponse (PipelineCompleted p) \<Rightarrow> Some (deduplication_status p)
      | _ \<Rightarrow> None)"

definition failing_analysis :: "pystr \<Rightarrow> pystr \<Rightarrow> pystr + (pystr \<rightharpoonup> pyval)" where
  "failing_analysis resume_text job_description =
     Inl (str ''Analysis service is busy. Please try again later.'')"

section \<open>Python sequence operations\<close>

text \<open>\<open>sub in s\<close> for strings and bytes: \<open>sub\<close> occurs in \<open>s\<close> as a contiguous run.\<close>

fun contains :: "'a list \<Rightarrow> 'a list \<Rightarrow> bool" where
  "contains sub [] = (sub = [])"
| "contains sub (x # xs) = (prefix sub (x # xs) \<or> contains sub xs)"

text \<open>
  The first occurrence of a separator: what precedes it and what follows it.
  \<open>s.split(sep, 1)\<close> is this pair when \<open>sep in s\<close>.
\<close>

fun find_sep :: "'a list \<Rightarrow> 'a list \<Rightarrow> ('a list \<times> 'a list) option" where
  "find_sep sep [] = (if sep = [] then Some ([], []) else None)"
| "find_sep sep (x # xs) =
     (if prefix sep (x # xs) then Some ([], drop (length sep) (x # xs))
      else (case find_sep sep xs of None \<Rightarrow> None | Some (a, b) \<Rightarrow> Some (x # a, b)))"

text \<open>
  \<open>s.split(sep)\<close> for a separator that is not empty (Python raises ValueError on an
  empty one; the parser never passes one): the pieces between the occurrences of
  \<open>sep\<close>, found from the left.
\<close>

function py_split :: "'a list \<Rightarrow> 'a list \<Rightarrow> 'a list list" where
  "py_split sep xs =
     (if sep = [] then [xs]
      else (case find_sep sep xs of
              None \<Rightarrow> [xs]
            | Some (a, b) \<Rightarrow> a # py_split sep b))"
  by pat_completeness auto
termination
proof (relation "measure (\<lambda>(sep, xs). length xs)")
  show "wf (measure (\<lambda>(sep, xs). length xs))" by simp
next
  fix sep xs :: "'a list" and x2 a b
  assume sep: "sep \<noteq> []" and f: "find_sep sep xs = Some x2" "(a, b) = x2"
  have shorter: "find_sep sep ys = Some (u, v) \<Longrightarrow> length v < length ys" for ys u v
  proof (induction ys arbitrary: u v)
    case Nil
    then show ?case using sep by simp
  next
    case (Cons y ys)
    show ?case
    proof (cases "prefix sep (y # ys)")
      case True
      with Cons.prems have "v = drop (length sep) (y # ys)" by simp
      then show ?thesis using sep by (cases sep) auto
    next
      case False
      with Cons.prems obtain u' where "find_sep sep ys = Some (u', v)"
        by (auto split: option.splits)
      with Cons.IH have "length v < length ys" by blast
      then show ?thesis by simp
    qed
  qed
  from f have "find_sep sep xs = Some (a, b)" by simp
  from shorter [OF this]
  show "((sep, b), (sep, xs)) \<in> measure (\<lambda>(sep, xs). length xs)" by simp
qed

declare py_split.simps [simp del]

text \<open>\<open>s.rstrip(chars)\<close> and \<open>s.strip(chars)\<close>: every trailing (and leading) element that
  is one of \<open>chars\<close> is removed.\<close>

definition rstrip_chars :: "'a list \<Rightarrow> 'a list \<Rightarrow> 'a list" where
  "rstrip_chars chars s = rev (dropWhile (\<lambda>c. c \<in> set chars) (rev s))"

definition strip_chars :: "'a list \<Rightarrow> 'a list \<Rightarrow> 'a list" where
  "strip_chars chars s = rstrip_chars chars (dropWhile (\<lambda>c. c \<in> set chars) s)"

text \<open>\<open>bytes.strip()\<close>: ASCII whitespace, the bytes space, tab, LF, CR, VT and FF.\<close>

definition bytes_strip :: "bytes \<Rightarrow> bytes" where
  "bytes_strip s = strip_chars [CHR '' '', CHR 0x09, CHR 0x0A, CHR 0x0D, CHR 0x0B, CHR 0x0C] s"

section \<open>UTF-8\<close>

text \<open>
  \<open>s.encode('utf-8')\<close>: a surrogate cannot be encoded and raises UnicodeEncodeError
  (\<open>None\<close>).
\<close>

definition encode_code_point :: "nat \<Rightarrow> nat list option" where
  "encode_code_point c =
     (if c < 0x80 then Some [c]
      else if c < 0x800 then Some [0xC0 + c div 64, 0x80 + c mod 64]
      else if 0xD800 \<le> c \<and> c \<le> 0xDFFF then None
      else if c < 0x10000 then Some [0xE0 + c div 4096, 0x80 + (c div 64) mod 64, 0x80 + c mod 64]
      else if c < 0x110000 then
        Some [0xF0 + c div 262144, 0x80 + (c div 4096) mod 64, 0x80 + (c div 64) mod 64, 0x80 + c mod 64]
      else None)"

fun utf8_encode_nat :: "pystr \<Rightarrow> nat list option" where
  "utf8_encode_nat [] = Some []"
| "utf8_encode_nat (c # cs) =
     (case encode_code_point c of
        None \<Rightarrow> None
      | Some bs \<Rightarrow> (case utf8_encode_nat cs of None \<Rightarrow> None | Some rest \<Rightarrow> Some (bs @ rest)))"

definition utf8_encode :: "pystr \<Rightarrow> bytes option" where
  "utf8_encode s = map_option (map char_of) (utf8_encode_nat s)"

text \<open>
  \<open>b.decode('utf-8', errors='ignore')\<close> on the byte values: a well-formed sequence gives
  its code point; at an ill-formed one the bytes up to the first that cannot continue it
  are dropped and decoding goes on from that byte.
\<close>

definition is_cont :: "nat \<Rightarrow> bool" where
  "is_cont b \<longleftrightarrow> 0x80 \<le> b \<and> b \<le> 0xBF"

definition second_of_three :: "nat \<Rightarrow> nat \<Rightarrow> bool" where
  "second_of_three b c \<longleftrightarrow> is_cont c \<and> (b = 0xE0 \<longrightarrow> 0xA0 \<le> c) \<and> (b = 0xED \<longrightarrow> c \<le> 0x9F)"

definition second_of_four :: "nat \<Rightarrow> nat \<Rightarrow> bool" where
  "second_of_four b c \<longleftrightarrow> is_cont c \<and> (b = 0xF0 \<longrightarrow> 0x90 \<le> c) \<and> (b = 0xF4 \<longrightarrow> c \<le> 0x8F)"

fun utf8_decode_nat :: "nat list \<Rightarrow> pystr" where
  "utf8_decode_nat [] = []"
| "utf8_decode_nat (b # bs) =
     (if b < 0x80 then b # utf8_decode_nat bs
      else if 0xC2 \<le> b \<and> b \<le> 0xDF then
        (case bs of
           [] \<Rightarrow> []
         | c # cs \<Rightarrow>
             if is_cont c then ((b - 0xC0) * 64 + (c - 0x80)) # utf8_decode_nat cs
             else utf8_decode_nat bs)
      else if 0xE0 \<le> b \<and> b \<le> 0xEF then
        (case bs of
           [] \<Rightarrow> []
         | c # cs \<Rightarrow>
             if second_of_three b c then
               (case cs of
                  [] \<Rightarrow> []
                | d # ds \<Rightarrow>
                    if is_cont d
                    then ((b - 0xE0) * 4096 + (c - 0x80) * 64 + (d - 0x80)) # utf8_decode_nat ds
                    else utf8_decode_nat cs)
             else utf8_decode_nat bs)
      else if 0xF0 \<le> b \<and> b \<le> 0xF4 then
        (case bs of
           [] \<Rightarrow> []
         | c # cs \<Rightarrow>
             if second_of_four b c then
               (case cs of
                  [] \<Rightarrow> []
                | d # ds \<Rightarrow>
                    if is_cont d then
                      (case ds of
                         [] \<Rightarrow> []
                       | e # es \<Rightarrow>
                           if is_cont e
                           then ((b - 0xF0) * 262144 + (c - 0x80) * 4096 + (d - 0x80) * 64 + (e - 0x80))
                                  # utf8_decode_nat es
                           else utf8_decode_nat ds)
                    else utf8_decode_nat cs)
             else utf8_decode_nat bs)
      else utf8_decode_nat bs)"

definition utf8_decode_ignore :: "bytes \<Rightarrow> pystr" where
  "utf8_decode_ignore bs = utf8_decode_nat (map of_char bs)"

section \<open>handler.parse\_multipart\_form\_data\<close>

text \<open>
  The errors of the parser, in the order of the source: "Content-Type must be
  multipart/form-data", "No boundary found in Content-Type header", "PDF file is
  required", "Job description is required", "Job description must be at least 50
  characters", and "Failed to parse form data" of the outer \<open>except\<close>.
\<close>

datatype multipart_error =
    ContentTypeNotMultipart
  | NoBoundary
  | PdfRequired
  | JobDescriptionRequired
  | JobDescriptionTooShort
  | ParseFailed

text \<open>
  The body of the event: a string that the parser encodes as UTF-8, or, with
  \<open>isBase64Encoded\<close>, a string that it hands to \<open>base64.b64decode\<close>; the latter is
  given by what that call returns (\<open>None\<close> when it raises).
\<close>

datatype http_body = TextBody pystr | Base64Body "bytes option"

record api_event =
  ev_headers :: "pystr \<rightharpoonup> pystr"
  ev_body :: http_body

record form_data =
  pdf_content :: bytes
  job_description :: pystr
  original_filename :: pystr

text \<open>\<open>headers.get("content-type") or headers.get("Content-Type", "")\<close>.\<close>

definition content_type_of :: "api_event \<Rightarrow> pystr" where
  "content_type_of e =
     (let fallback = (case ev_headers e (str ''Content-Type'') of Some v \<Rightarrow> v | None \<Rightarrow> [])
      in case ev_headers e (str ''content-type'') of
           Some v \<Rightarrow> if v \<noteq> [] then v else fallback
         | None \<Rightarrow> fallback)"

definition body_bytes :: "http_body \<Rightarrow> bytes option" where
  "body_bytes b = (case b of TextBody s \<Rightarrow> utf8_encode s | Base64Body r \<Rightarrow> r)"

definition dquote :: nat where
  "dquote = of_char (CHR 0x22)"

text \<open>
  The loop over \<open>content_type.split(";")\<close>: the first piece that, trimmed, starts with
  \<open>boundary=\<close> gives what follows the equals sign, without quotes around it.
\<close>

fun find_boundary :: "pystr list \<Rightarrow> pystr option" where
  "find_boundary [] = None"
| "find_boundary (p # ps) =
     (let part = strip p
      in if prefix (str ''boundary='') part
         then Some (strip_chars [dquote] (drop (length (str ''boundary='')) part))
         else find_boundary ps)"

text \<open>
  \<open>re.search(r'filename="([^"]+)"', text)\<close>: the leftmost place where \<open>filename="\<close> is
  followed by at least one character that is no quote and then by a quote; group 1 is
  those characters.
\<close>

fun re_filename :: "pystr \<Rightarrow> pystr option" where
  "re_filename [] = None"
| "re_filename (c # cs) =
     (if prefix (str ''filename='' @ [dquote]) (c # cs) then
        (let rest = drop (length (str ''filename='' @ [dquote])) (c # cs);
             name = takeWhile (\<lambda>x. x \<noteq> dquote) rest
         in if name \<noteq> [] \<and> dropWhile (\<lambda>x. x \<noteq> dquote) rest \<noteq> [] then Some name
            else re_filename cs)
      else re_filename cs)"

definition crlf :: bytes where
  "crlf = [CHR 0x0D, CHR 0x0A]"

definition lf :: bytes where
  "lf = [CHR 0x0A]"

text \<open>The argument of \<open>rstrip(b"\r\n--")\<close>: a set of bytes, not a suffix.\<close>

definition crlf_dashes :: bytes where
  "crlf_dashes = [CHR 0x0D, CHR 0x0A, CHR ''-'', CHR ''-'']"

text \<open>\<open>'name="field"' in headers_text\<close>.\<close>

definition names_field :: "string \<Rightarrow> pystr \<Rightarrow> bool" where
  "names_field field headers_text =
     contains (str ''name='' @ [dquote] @ str field @ [dquote]) headers_text"

text \<open>
  The body of the loop over the parts. The state is \<open>pdf_content\<close>, \<open>job_description\<close>
  and \<open>original_filename\<close>.
\<close>

type_synonym scan_state = "bytes option \<times> pystr option \<times> pystr"

definition process_part :: "scan_state \<Rightarrow> bytes \<Rightarrow> scan_state" where
  "process_part st part =
     (case st of (pdf, jd, filename) \<Rightarrow>
        if bytes_strip part = [] \<or> bytes_strip part = ''--'' then st
        else
          (case (case find_sep (crlf @ crlf) part of
                   Some hc \<Rightarrow> Some hc
                 | None \<Rightarrow> find_sep (lf @ lf) part) of
             None \<Rightarrow> st
           | Some (headers_section, content) \<Rightarrow>
               (let headers_text = utf8_decode_ignore headers_section
                in if names_field ''resume'' headers_text \<or> names_field ''pdf'' headers_text then
                     (Some (rstrip_chars crlf_dashes content), jd,
                      (case re_filename headers_text of Some f \<Rightarrow> f | None \<Rightarrow> filename))
                   else if names_field ''jobDescription'' headers_text \<or>
                           names_field ''job_description'' headers_text then
                     (pdf, Some (strip (utf8_decode_ignore (rstrip_chars crlf_dashes content))), filename)
                   else st)))"

text \<open>The checks after the loop.\<close>

definition validate_form :: "scan_state \<Rightarrow> multipart_error + form_data" where
  "validate_form st =
     (case st of (pdf, jd, filename) \<Rightarrow>
        (case pdf of
           None \<Rightarrow> Inl PdfRequired
         | Some content \<Rightarrow>
             if content = [] then Inl PdfRequired
             else
               (case jd of
                  None \<Rightarrow> Inl JobDescriptionRequired
                | Some description \<Rightarrow>
                    if description = [] then Inl JobDescriptionRequired
                    else if length (strip description) < 50 then Inl JobDescriptionTooShort
                    else Inr \<lparr>pdf_content = content, job_description = description,
                              original_filename = filename\<rparr>)))"

definition scan_parts :: "bytes list \<Rightarrow> scan_state" where
  "scan_parts parts = foldl process_part (None, None, str ''unknown.pdf'') parts"

definition parse_multipart_form_data :: "api_event \<Rightarrow> multipart_error + form_data" where
  "parse_multipart_form_data e =
     (let content_type = content_type_of e
      in if \<not> prefix (str ''multipart/form-data'') content_type then Inl ContentTypeNotMultipart
         else
           (case body_bytes (ev_body e) of
              None \<Rightarrow> Inl ParseFailed
            | Some body \<Rightarrow>
                (case find_boundary (py_split (str '';'') content_type) of
                   None \<Rightarrow> Inl NoBoundary
                 | Some boundary \<Rightarrow>
                     if boundary = [] then Inl NoBoundary
                     else
                       (case utf8_encode (str ''--'' @ boundary) of
                          None \<Rightarrow> Inl ParseFailed
                        | Some boundary_bytes \<Rightarrow>
                            validate_form (scan_parts (py_split boundary_bytes body))))))"

text \<open>
  The parts that the loop runs over, when the request gets as far as the split.
\<close>

definition form_parts :: "api_event \<Rightarrow> bytes list option" where
  "form_parts e =
     (if \<not> prefix (str ''multipart/form-data'') (content_type_of e) then None
      else
        (case body_bytes (ev_body e) of
           None \<Rightarrow> None
         | Some body \<Rightarrow>
             (case find_boundary (py_split (str '';'') (content_type_of e)) of
                None \<Rightarrow> None
              | Some boundary \<Rightarrow>
                  if boundary = [] then None
                  else map_option (\<lambda>boundary_bytes. py_split boundary_bytes body)
                         (utf8_encode (str ''--'' @ boundary)))))"

text \<open>A part that the loop takes for the file part.\<close>

definition is_file_part :: "bytes \<Rightarrow> bool" where
  "is_file_part part \<longleftrightarrow>
     (case (case find_sep (crlf @ crlf) part of Some hc \<Rightarrow> Some hc | None \<Rightarrow> find_sep (lf @ lf) part) of
        None \<Rightarrow> False
      | Some (headers_section, content) \<Rightarrow>
          names_field ''resume'' (utf8_decode_ignore headers_section) \<or>
          names_field ''pdf'' (utf8_decode_ignore headers_section))"

section \<open>The multipart body of the parser's tests\<close>

text \<open>
  The body that \<open>test_api_gateway_integration\<close> writes, for any file bytes and text
  bytes: the boundary, the headers of the two parts and the closing delimiter are those
  of the test. The event carries the body with \<open>isBase64Encoded\<close>, so that it can hold
  any bytes.
\<close>

definition test_content_type :: pystr where
  "test_content_type = str ''multipart/form-data; boundary=----WebKitFormBoundary7MA4YWxkTrZu0gW''"

definition delimiter :: bytes where
  "delimiter = ''------WebKitFormBoundary7MA4YWxkTrZu0gW''"

definition file_part_headers :: bytes where
  \<open>file_part_headers =
     crlf @ ''Content-Disposition: form-data; name="resume"; filename="test.pdf"'' @ crlf @
     ''Content-Type: application/pdf''\<close>

definition text_part_headers :: bytes where
  \<open>text_part_headers = crlf @ ''Content-Disposition: form-data; name="jobDescription"''\<close>

definition build_multipart :: "bytes \<Rightarrow> bytes \<Rightarrow> bytes" where
  "build_multipart file_bytes text_bytes =
     delimiter @ file_part_headers @ crlf @ crlf @ file_bytes @ crlf @
     delimiter @ text_part_headers @ crlf @ crlf @ text_bytes @ crlf @
     delimiter @ ''--'' @ crlf"

definition multipart_event :: "bytes \<Rightarrow> api_event" where
  "multipart_event body =
     \<lparr>ev_headers = [str ''content-type'' \<mapsto> test_content_type], ev_body = Base64Body (Some body)\<rparr>"

text \<open>File bytes and text bytes for the examples below.\<close>

definition sample_pdf :: bytes where
  "sample_pdf = ''%PDF-1.4 fake pdf content''"

definition sample_job_text :: string where
  "sample_job_text = ''Software Engineer position requiring Python and AWS experience.''"

text \<open>The body of \<open>test_multipart_form_parsing_missing_pdf\<close>: a text part only.\<close>

definition text_only_body :: "bytes \<Rightarrow> bytes" where
  "text_only_body text_bytes =
     delimiter @ text_part_headers @ crlf @ crlf @ text_bytes @ crlf @ delimiter @ ''--'' @ crlf"

section \<open>Properties of validate\_input\<close>

lemma strip_Nil [simp]: "strip [] = []"
  by (simp add: strip_def)

lemma get_strip_nonblank:
  "k \<in> dom e \<Longrightarrow> (\<exists>t. get_strip e k = Some t \<and> t \<noteq> []) \<longleftrightarrow> nonblank e k"
  by (auto simp: get_strip_def nonblank_def split: option.splits pyval.splits)

lemma validate_complete_pipeline:
  assumes "has_locator e" "has_job_description e"
  shows "validate_input e = Valid complete_pipeline \<longleftrightarrow> nonblank e (str ''job_description'')"
    and "\<not> nonblank e (str ''job_description'') \<Longrightarrow> \<exists>m. validate_input e = Invalid m \<and> m \<noteq> []"
proof -
  have d: "str ''job_description'' \<in> dom e"
    using assms by (simp add: has_job_description_def)
  from assms show "validate_input e = Valid complete_pipeline \<longleftrightarrow> nonblank e (str ''job_description'')"
    using get_strip_nonblank [OF d]
    by (auto simp: validate_input_def has_locator_def has_job_description_def split: option.splits)
  from assms show "\<not> nonblank e (str ''job_description'') \<Longrightarrow> \<exists>m. validate_input e = Invalid m \<and> m \<noteq> []"
    using get_strip_nonblank [OF d]
    by (auto simp: validate_input_def has_locator_def has_job_description_def str_def split: option.splits)
qed

lemma validate_s3_upload:
  assumes "\<not> (has_locator e \<and> has_job_description e)" "has_records e"
  shows "validate_input e = Valid s3_upload"
  using assms
  by (auto simp: validate_input_def has_locator_def has_job_description_def has_records_def)

lemma validate_direct_extraction:
  assumes "\<not> has_job_description e" "\<not> has_records e" "has_locator e"
  shows "validate_input e = Valid direct_extraction"
proof -
  have "\<not> (case e (str ''Records'') of None \<Rightarrow> False | Some v \<Rightarrow> truthy v)"
    using assms(2) by (auto simp: has_records_def split: option.splits)
  then show ?thesis
    using assms(1,3)
    by (simp add: validate_input_def has_locator_def has_job_description_def)
qed

lemma validate_analysis_only:
  assumes "\<not> has_locator e" "\<not> has_records e" "has_resume_text e" "has_job_description e"
  shows "validate_input e = Valid analysis_only \<longleftrightarrow>
           nonblank e (str ''resume_text'') \<and> nonblank e (str ''job_description'')"
    and "\<not> (nonblank e (str ''resume_text'') \<and> nonblank e (str ''job_description'')) \<Longrightarrow>
           \<exists>m. validate_input e = Invalid m \<and> m \<noteq> []"
proof -
  have r: "\<not> (case e (str ''Records'') of None \<Rightarrow> False | Some v \<Rightarrow> truthy v)"
    using assms(2) by (auto simp: has_records_def split: option.splits)
  have l: "\<not> (str ''bucket_name'' \<in> dom e \<and> str ''s3_key'' \<in> dom e)"
    using assms(1) by (simp add: has_locator_def)
  have d1: "str ''resume_text'' \<in> dom e" and d2: "str ''job_description'' \<in> dom e"
    using assms(3,4) by (simp_all add: has_resume_text_def has_job_description_def)
  have v: "validate_input e =
     (case get_strip e (str ''resume_text'') of
           None \<Rightarrow> Invalid (str ''Invalid event structure'')
         | Some r \<Rightarrow>
             if r = [] then Invalid (str ''Resume text cannot be empty'')
             else
               (case get_strip e (str ''job_description'') of
                  None \<Rightarrow> Invalid (str ''Invalid event structure'')
                | Some t \<Rightarrow>
                    if t = [] then Invalid (str ''Job description cannot be empty'')
                    else Valid analysis_only))"
    using r l d1 d2 unfolding validate_input_def by auto
  show "validate_input e = Valid analysis_only \<longleftrightarrow>
           nonblank e (str ''resume_text'') \<and> nonblank e (str ''job_description'')"
    unfolding v using get_strip_nonblank [OF d1] get_strip_nonblank [OF d2]
    by (auto split: option.splits)
  show "\<not> (nonblank e (str ''resume_text'') \<and> nonblank e (str ''job_description'')) \<Longrightarrow>
           \<exists>m. validate_input e = Invalid m \<and> m \<noteq> []"
    unfolding v using get_strip_nonblank [OF d1] get_strip_nonblank [OF d2]
    by (auto simp: str_def split: option.splits)
qed

lemma validate_no_shape:
  assumes "\<not> has_locator e" "\<not> has_records e" "\<not> (has_resume_text e \<and> has_job_description e)"
  shows "validate_input e = Invalid invalid_format_msg"
proof -
  have r: "\<not> (case e (str ''Records'') of None \<Rightarrow> False | Some v \<Rightarrow> truthy v)"
    using assms(2) by (auto simp: has_records_def split: option.splits)
  show ?thesis
    using r assms(1,3)
    unfolding validate_input_def has_locator_def has_resume_text_def has_job_description_def
    by auto
qed

text \<open>
  Claim C4. \<open>validate_input\<close> classifies an event by the first shape that matches, in the
  order complete pipeline (locator and job description present), storage event (a
  non-empty \<open>Records\<close>), direct extraction (locator), analysis only (resume text and job
  description). A matched shape is valid exactly when its required text fields are not
  empty after trimming, and is otherwise rejected with a message. Each shape with
  minimal fields classifies to itself, and the empty event is rejected with the
  message that lists the expected shapes.
\<close>

theorem validate_input_precedence:
  "(has_locator e \<and> has_job_description e \<longrightarrow>
      (validate_input e = Valid complete_pipeline \<longleftrightarrow> nonblank e (str ''job_description'')) \<and>
      (\<not> nonblank e (str ''job_description'') \<longrightarrow> (\<exists>m. validate_input e = Invalid m \<and> m \<noteq> []))) \<and>
   (\<not> (has_locator e \<and> has_job_description e) \<and> has_records e \<longrightarrow>
      validate_input e = Valid s3_upload) \<and>
   (\<not> has_job_description e \<and> \<not> has_records e \<and> has_locator e \<longrightarrow>
      validate_input e = Valid direct_extraction) \<and>
   (\<not> has_locator e \<and> \<not> has_records e \<and> has_resume_text e \<and> has_job_description e \<longrightarrow>
      (validate_input e = Valid analysis_only \<longleftrightarrow>
         nonblank e (str ''resume_text'') \<and> nonblank e (str ''job_description'')) \<and>
      (\<not> (nonblank e (str ''resume_text'') \<and> nonblank e (str ''job_description'')) \<longrightarrow>
         (\<exists>m. validate_input e = Invalid m \<and> m \<noteq> []))) \<and>
   (\<not> has_locator e \<and> \<not> has_records e \<and> \<not> (has_resume_text e \<and> has_job_description e) \<longrightarrow>
      validate_input e = Invalid invalid_format_msg) \<and>
   (strip j \<noteq> [] \<longrightarrow>
      validate_input [str ''bucket_name'' \<mapsto> b, str ''s3_key'' \<mapsto> k, str ''job_description'' \<mapsto> PStr j]
        = Valid complete_pipeline) \<and>
   validate_input [str ''Records'' \<mapsto> PList [rec]] = Valid s3_upload \<and>
   validate_input [str ''bucket_name'' \<mapsto> b, str ''s3_key'' \<mapsto> k] = Valid direct_extraction \<and>
   (strip r \<noteq> [] \<and> strip j \<noteq> [] \<longrightarrow>
      validate_input [str ''resume_text'' \<mapsto> PStr r, str ''job_description'' \<mapsto> PStr j]
        = Valid analysis_only) \<and>
   validate_input Map.empty = Invalid invalid_format_msg \<and> invalid_format_msg \<noteq> []"
proof -
  have m1: "strip j \<noteq> [] \<longrightarrow>
      validate_input [str ''bucket_name'' \<mapsto> b, str ''s3_key'' \<mapsto> k, str ''job_description'' \<mapsto> PStr j]
        = Valid complete_pipeline"
    by (simp add: validate_input_def get_strip_def str_def)
  have m2: "validate_input [str ''Records'' \<mapsto> PList [rec]] = Valid s3_upload"
    by (simp add: validate_input_def str_def)
  have m3: "validate_input [str ''bucket_name'' \<mapsto> b, str ''s3_key'' \<mapsto> k] = Valid direct_extraction"
    by (simp add: validate_input_def str_def)
  have m4: "strip r \<noteq> [] \<and> strip j \<noteq> [] \<longrightarrow>
      validate_input [str ''resume_text'' \<mapsto> PStr r, str ''job_description'' \<mapsto> PStr j]
        = Valid analysis_only"
    by (simp add: validate_input_def get_strip_def str_def)
  have m5: "validate_input Map.empty = Invalid invalid_format_msg"
    by (simp add: validate_input_def)
  have m6: "invalid_format_msg \<noteq> []"
    by (simp add: invalid_format_msg_def str_def)
  show ?thesis
    using validate_complete_pipeline [of e] validate_s3_upload [of e]
      validate_direct_extraction [of e] validate_analysis_only [of e] validate_no_shape [of e]
      m1 m2 m3 m4 m5 m6
    by blast
qed

text \<open>
  An event that matches all four shapes at once is a complete-pipeline event; with a
  blank job description it is rejected rather than passed on to a later shape.
\<close>

theorem validate_input_precedence_witness:
  "validate_input [str ''bucket_name'' \<mapsto> PStr (str ''b''), str ''s3_key'' \<mapsto> PStr (str ''k.pdf''),
       str ''job_description'' \<mapsto> PStr (str '' dev ''), str ''resume_text'' \<mapsto> PStr (str ''cv''),
       str ''Records'' \<mapsto> PList [PNone]] = Valid complete_pipeline \<and>
   (\<exists>m. validate_input [str ''bucket_name'' \<mapsto> PStr (str ''b''), str ''s3_key'' \<mapsto> PStr (str ''k.pdf''),
       str ''job_description'' \<mapsto> PStr (str ''  ''), str ''resume_text'' \<mapsto> PStr (str ''cv''),
       str ''Records'' \<mapsto> PList [PNone]] = Invalid m \<and> m \<noteq> []) \<and>
   validate_input [str ''s3_key'' \<mapsto> PStr (str ''k.pdf''), str ''resume_text'' \<mapsto> PStr (str ''cv''),
       str ''job_description'' \<mapsto> PStr (str ''dev''), str ''Records'' \<mapsto> PList [PNone]] = Valid s3_upload \<and>
   validate_input [str ''bucket_name'' \<mapsto> PStr (str ''b''), str ''s3_key'' \<mapsto> PStr (str ''k.pdf''),
       str ''resume_text'' \<mapsto> PStr (str ''cv'')] = Valid direct_extraction \<and>
   validate_input [str ''resume_text'' \<mapsto> PStr (str ''cv''), str ''job_description'' \<mapsto> PStr (str ''dev'')]
     = Valid analysis_only \<and>
   validate_input [str ''job_description'' \<mapsto> PStr (str ''dev'')] = Invalid invalid_format_msg"
proof -
  let ?e1 = "[str ''bucket_name'' \<mapsto> PStr (str ''b''), str ''s3_key'' \<mapsto> PStr (str ''k.pdf''),
       str ''job_description'' \<mapsto> PStr (str '' dev ''), str ''resume_text'' \<mapsto> PStr (str ''cv''),
       str ''Records'' \<mapsto> PList [PNone]]"
  let ?e2 = "[str ''bucket_name'' \<mapsto> PStr (str ''b''), str ''s3_key'' \<mapsto> PStr (str ''k.pdf''),
       str ''job_description'' \<mapsto> PStr (str ''  ''), str ''resume_text'' \<mapsto> PStr (str ''cv''),
       str ''Records'' \<mapsto> PList [PNone]]"
  let ?e3 = "[str ''s3_key'' \<mapsto> PStr (str ''k.pdf''), str ''resume_text'' \<mapsto> PStr (str ''cv''),
       str ''job_description'' \<mapsto> PStr (str ''dev''), str ''Records'' \<mapsto> PList [PNone]]"
  let ?e4 = "[str ''bucket_name'' \<mapsto> PStr (str ''b''), str ''s3_key'' \<mapsto> PStr (str ''k.pdf''),
       str ''resume_text'' \<mapsto> PStr (str ''cv'')]"
  let ?e5 = "[str ''resume_text'' \<mapsto> PStr (str ''cv''), str ''job_description'' \<mapsto> PStr (str ''dev'')]"
  let ?e6 = "[str ''job_description'' \<mapsto> PStr (str ''dev'')]"
  have sp: "strip (str '' dev '') \<noteq> []" "strip (str ''  '') = []" "strip (str ''dev'') \<noteq> []"
    "strip (str ''cv'') \<noteq> []"
    by (simp_all add: strip_def str_def py_isspace_def)
  have h1: "has_locator ?e1 \<and> has_job_description ?e1 \<and> nonblank ?e1 (str ''job_description'')"
    using sp by (simp add: has_locator_def has_job_description_def nonblank_def str_def)
  have h2: "has_locator ?e2 \<and> has_job_description ?e2 \<and> \<not> nonblank ?e2 (str ''job_description'')"
    using sp by (simp add: has_locator_def has_job_description_def nonblank_def str_def)
  have h3: "\<not> (has_locator ?e3 \<and> has_job_description ?e3) \<and> has_records ?e3"
    by (simp add: has_locator_def has_job_description_def has_records_def str_def)
  have h4: "\<not> has_job_description ?e4 \<and> \<not> has_records ?e4 \<and> has_locator ?e4"
    by (simp add: has_locator_def has_job_description_def has_records_def str_def)
  have h5: "\<not> has_locator ?e5 \<and> \<not> has_records ?e5 \<and> has_resume_text ?e5 \<and> has_job_description ?e5 \<and>
      nonblank ?e5 (str ''resume_text'') \<and> nonblank ?e5 (str ''job_description'')"
    using sp
    by (simp add: has_locator_def has_job_description_def has_records_def has_resume_text_def
        nonblank_def str_def)
  have h6: "\<not> has_locator ?e6 \<and> \<not> has_records ?e6 \<and> \<not> (has_resume_text ?e6 \<and> has_job_description ?e6)"
    by (simp add: has_locator_def has_job_description_def has_records_def has_resume_text_def str_def)
  have c1: "validate_input ?e1 = Valid complete_pipeline"
    using validate_input_precedence [of ?e1, THEN conjunct1] h1 by blast
  have c2: "\<exists>m. validate_input ?e2 = Invalid m \<and> m \<noteq> []"
    using validate_input_precedence [of ?e2, THEN conjunct1] h2 by blast
  have c3: "validate_input ?e3 = Valid s3_upload"
    using validate_input_precedence [of ?e3, THEN conjunct2, THEN conjunct1] h3 by blast
  have c4: "validate_input ?e4 = Valid direct_extraction"
    using validate_input_precedence [of ?e4, THEN conjunct2, THEN conjunct2, THEN conjunct1] h4
    by blast
  have c5: "validate_input ?e5 = Valid analysis_only"
    using validate_input_precedence
      [of ?e5, THEN conjunct2, THEN conjunct2, THEN conjunct2, THEN conjunct1] h5
    by blast
  have c6: "validate_input ?e6 = Invalid invalid_format_msg"
    using validate_input_precedence
      [of ?e6, THEN conjunct2, THEN conjunct2, THEN conjunct2, THEN conjunct2, THEN conjunct1] h6
    by blast
  show ?thesis
    using c1 c2 c3 c4 c5 c6 by (intro conjI)
qed

section \<open>Properties of the polling loop\<close>

lemma poll_loop_bound:
  "poll_loop env t n = (r, t', n') \<Longrightarrow> t = poll_interval * n \<Longrightarrow> t \<le> max_wait_time \<Longrightarrow>
     t' = poll_interval * n' \<and> t' \<le> max_wait_time \<and> n \<le> n'"
proof (induction env t n rule: poll_loop.induct)
  case (1 env t n)
  show ?case
  proof (cases "t < max_wait_time")
    case False
    with "1.prems" show ?thesis
      by (subst (asm) poll_loop.simps) auto
  next
    case True
    have step: "t + poll_interval = poll_interval * Suc n" "t + poll_interval \<le> max_wait_time"
      using True "1.prems"(2) by (auto simp: max_wait_time_def poll_interval_def)
    show ?thesis
    proof (cases "get_status env n")
      case (JobStatus st msg)
      show ?thesis
      proof (cases "st = IN_PROGRESS \<or> st = PARTIAL_SUCCESS")
        case run: True
        then have "poll_loop env (t + poll_interval) (Suc n) = (r, t', n')"
          using "1.prems"(1) True JobStatus
          by (auto simp: poll_loop.simps [of env t n] Let_def)
        moreover have "t' = poll_interval * n' \<and> t' \<le> max_wait_time \<and> Suc n \<le> n'"
          if "poll_loop env (t + poll_interval) (Suc n) = (r, t', n')"
          using run "1.IH"(1) [OF True refl JobStatus _ that step] "1.IH"(2) [OF True refl JobStatus _ that step]
          by auto
        ultimately show ?thesis by auto
      next
        case False
        then show ?thesis
          using "1.prems"(1) True JobStatus step
          by (cases st) (auto simp: poll_loop.simps [of env t n] Let_def split: if_splits)
      qed
    next
      case (PollClientError ce)
      then show ?thesis
        using "1.prems"(1) True step by (auto simp: poll_loop.simps [of env t n] Let_def)
    next
      case PollException
      then show ?thesis
        using "1.prems"(1) True step by (auto simp: poll_loop.simps [of env t n] Let_def)
    qed
  qed
qed

lemma poll_loop_timeout:
  "\<forall>k<60. still_running (get_status env k) \<Longrightarrow> t = poll_interval * n \<Longrightarrow> n \<le> 60 \<Longrightarrow>
     poll_loop env t n = (ExtractFailed (JobTimedOut 300), 300, 60)"
proof (induction env t n rule: poll_loop.induct)
  case (1 env t n)
  show ?case
  proof (cases "n < 60")
    case False
    with "1.prems" have "n = 60" "t = 300" by (auto simp: poll_interval_def)
    then show ?thesis by (subst poll_loop.simps) (simp add: max_wait_time_def)
  next
    case True
    then have lt: "t < max_wait_time"
      using "1.prems" by (auto simp: poll_interval_def max_wait_time_def)
    have run: "still_running (get_status env n)" using True "1.prems"(1) by blast
    have step: "t + poll_interval = poll_interval * Suc n" "Suc n \<le> 60"
      using True "1.prems"(2) by (auto simp: poll_interval_def)
    from run obtain msg where
      st: "get_status env n = JobStatus IN_PROGRESS msg \<or> get_status env n = JobStatus PARTIAL_SUCCESS msg"
      by (auto simp: still_running_def)
    then show ?thesis
    proof
      assume a: "get_status env n = JobStatus IN_PROGRESS msg"
      have "poll_loop env t n = poll_loop env (t + poll_interval) (Suc n)"
        using a lt by (simp add: poll_loop.simps [of env t n] Let_def)
      then show ?thesis
        using "1.IH"(1) [OF lt refl a refl "1.prems"(1) step] by simp
    next
      assume a: "get_status env n = JobStatus PARTIAL_SUCCESS msg"
      have "poll_loop env t n = poll_loop env (t + poll_interval) (Suc n)"
        using a lt by (simp add: poll_loop.simps [of env t n] Let_def)
      then show ?thesis
        using "1.IH"(2) [OF lt refl a refl "1.prems"(1) step] by simp
    qed
  qed
qed

lemma poll_loop_timeout_only:
  "poll_loop env t n = (ExtractFailed (JobTimedOut w), t', n') \<Longrightarrow> t' \<ge> max_wait_time"
proof (induction env t n rule: poll_loop.induct)
  case (1 env t n)
  show ?case
  proof (cases "t < max_wait_time")
    case False
    with "1.prems" show ?thesis
      by (subst (asm) poll_loop.simps) auto
  next
    case True
    show ?thesis
    proof (cases "get_status env n")
      case (JobStatus st msg)
      show ?thesis
      proof (cases st)
        case IN_PROGRESS
        then have "poll_loop env (t + poll_interval) (Suc n) = (ExtractFailed (JobTimedOut w), t', n')"
          using "1.prems" True JobStatus by (simp add: poll_loop.simps [of env t n] Let_def)
        then show ?thesis
          using "1.IH"(1) [OF True refl JobStatus IN_PROGRESS] by simp
      next
        case PARTIAL_SUCCESS
        then have "poll_loop env (t + poll_interval) (Suc n) = (ExtractFailed (JobTimedOut w), t', n')"
          using "1.prems" True JobStatus by (simp add: poll_loop.simps [of env t n] Let_def)
        then show ?thesis
          using "1.IH"(2) [OF True refl JobStatus PARTIAL_SUCCESS] by simp
      qed (use "1.prems" True JobStatus in
            \<open>auto simp: poll_loop.simps [of env t n] Let_def split: if_splits\<close>)
    qed (use "1.prems" True in
          \<open>auto simp: poll_loop.simps [of env t n] Let_def async_client_error_def
             split: client_error.splits if_splits\<close>)
  qed
qed


text \<open>
  Claim C9. The asynchronous extraction sleeps exactly \<open>poll_interval = 5\<close> seconds
  before each status call and stops when the seconds slept reach
  \<open>max_wait_time = 300\<close>: it always returns, after at most 60 status calls and at most
  300 seconds of waiting, and when the job is still running at every one of the 60
  calls the result is the time-out error.
\<close>

theorem extract_text_async_bounded:
  "(case extract_text_async env of (r, slept, polls) \<Rightarrow>
      slept = 5 * polls \<and> polls \<le> 60 \<and> slept \<le> 300 \<and>
      (start_job env = None \<and> (\<forall>k<60. still_running (get_status env k)) \<longrightarrow>
         r = ExtractFailed (JobTimedOut 300) \<and> polls = 60 \<and> slept = 300) \<and>
      (r = ExtractFailed (JobTimedOut 300) \<longrightarrow> slept = 300))"
proof (cases "start_job env")
  case (Some a)
  then show ?thesis
    by (cases a) (auto simp: extract_text_async_def async_client_error_def split: client_error.splits)
next
  case None
  obtain r slept polls where p: "poll_loop env 0 0 = (r, slept, polls)"
    by (cases "poll_loop env 0 0") auto
  have b: "slept = poll_interval * polls \<and> slept \<le> max_wait_time"
    using poll_loop_bound [OF p] by (simp add: poll_interval_def max_wait_time_def)
  have t: "(\<forall>k<60. still_running (get_status env k)) \<longrightarrow>
      r = ExtractFailed (JobTimedOut 300) \<and> polls = 60 \<and> slept = 300"
    using poll_loop_timeout [of env 0 0] p by (auto simp: poll_interval_def)
  have o: "r = ExtractFailed (JobTimedOut 300) \<longrightarrow> slept = 300"
  proof
    assume "r = ExtractFailed (JobTimedOut 300)"
    then have "poll_loop env 0 0 = (ExtractFailed (JobTimedOut 300), slept, polls)"
      using p by simp
    from poll_loop_timeout_only [OF this] b show "slept = 300"
      by (simp add: max_wait_time_def)
  qed
  show ?thesis
    using None p b t o
    by (auto simp: extract_text_async_def poll_interval_def max_wait_time_def)
qed

theorem extract_text_async_bounded_witness:
  "extract_text_async \<lparr>start_job = None, get_status = (\<lambda>k. JobStatus IN_PROGRESS None), job_text = []\<rparr>
     = (ExtractFailed (JobTimedOut 300), 300, 60)"
proof -
  let ?env = "\<lparr>start_job = None, get_status = (\<lambda>k. JobStatus IN_PROGRESS None), job_text = []\<rparr>"
  have "start_job ?env = None \<and> (\<forall>k<60. still_running (get_status ?env k))"
    by (simp add: still_running_def)
  then show ?thesis
    using extract_text_async_bounded [of ?env]
    by (cases "extract_text_async ?env") auto
qed

section \<open>Properties of the analysis parser\<close>

lemma clamp_score_in_range: "score_in_range (clamp_score f)"
  by (cases f) (auto simp: clamp_score_def score_in_range_def Let_def)

lemma fix_suggestions_ok: "suggestions_ok (fix_suggestions d)"
proof -
  have len: "length default_suggestions = 3" by (simp add: default_suggestions_def)
  show ?thesis
    unfolding fix_suggestions_def suggestions_ok_def Let_def is_list_def
    using len by (auto split: option.splits pyval.splits)
qed

lemma analysis_keys_distinct:
  "str ''compatibility_score'' \<noteq> str ''suggestions''"
  "str ''strengths'' \<noteq> str ''suggestions''"
  "str ''areas_for_improvement'' \<noteq> str ''suggestions''"
  "str ''strengths'' \<noteq> str ''compatibility_score''"
  "str ''areas_for_improvement'' \<noteq> str ''compatibility_score''"
  by (simp_all add: str_def)

lemma fix_score_ok:
  assumes "fix_score fs d = Inr d'" "suggestions_ok d"
  shows "score_ok d' \<and> suggestions_ok d'"
  using assms analysis_keys_distinct clamp_score_in_range
  by (auto simp: fix_score_def score_ok_def suggestions_ok_def score_in_range_def
      split: option.splits sum.splits if_splits)

lemma add_optional_defaults_ok:
  assumes "score_ok d" "suggestions_ok d"
  shows "score_ok (add_optional_defaults d) \<and> suggestions_ok (add_optional_defaults d)"
  using assms analysis_keys_distinct
  by (auto simp: add_optional_defaults_def score_ok_def suggestions_ok_def Let_def)

lemma repair_analysis_ok:
  assumes "repair_analysis fs d = Inr d'"
  shows "score_ok d' \<and> suggestions_ok d'"
proof -
  from assms obtain d5 where
    s: "fix_score fs (fix_suggestions (fix_missing_skills (fix_missing_keywords d))) = Inr d5"
    and d': "d' = add_optional_defaults d5"
    by (auto simp: repair_analysis_def split: sum.splits)
  from fix_score_ok [OF s fix_suggestions_ok] have "score_ok d5 \<and> suggestions_ok d5" .
  then show ?thesis
    unfolding d' using add_optional_defaults_ok by blast
qed

text \<open>
  Claim C3. Whenever \<open>_parse_analysis_response\<close> returns success, whatever
  \<open>json.loads\<close> and \<open>float\<close> made of the model's text, the returned analysis has a
  compatibility score between 0 and 100 and a list of at least three suggestions.
\<close>

theorem parse_analysis_response_invariant:
  assumes "parse_analysis_response json_loads float_of_str response_text = Inr d"
  shows "(\<exists>sc. d (str ''compatibility_score'') = Some sc \<and> score_in_range sc) \<and>
         (\<exists>xs. d (str ''suggestions'') = Some (PList xs) \<and> 3 \<le> length xs)"
proof -
  from assms obtain d0 where "repair_analysis float_of_str d0 = Inr d"
    by (auto simp: parse_analysis_response_def Let_def
        split: option.splits json_outcome.splits list.splits prod.splits)
  from repair_analysis_ok [OF this] show ?thesis
    by (simp add: score_ok_def suggestions_ok_def)
qed

theorem parse_analysis_response_invariant_witness:
  \<open>\<exists>d. parse_analysis_response sample_json_loads (\<lambda>s. None)
         (str ''Result: {"missing_keywords": 3, "missing_skills": {}, "suggestions": ["Add AWS"], "compatibility_score": 150} '') = Inr d \<and>
       d (str ''compatibility_score'') = Some (PInt 100) \<and>
       (\<exists>sc. d (str ''compatibility_score'') = Some sc \<and> score_in_range sc) \<and>
       (\<exists>xs. d (str ''suggestions'') = Some (PList xs) \<and> 3 \<le> length xs)\<close>
proof -
  let ?t = \<open>str ''Result: {"missing_keywords": 3, "missing_skills": {}, "suggestions": ["Add AWS"], "compatibility_score": 150} ''\<close>
  have st: \<open>strip ?t = str ''Result: {"missing_keywords": 3, "missing_skills": {}, "suggestions": ["Add AWS"], "compatibility_score": 150}''\<close>
    by (simp add: strip_def str_def py_isspace_def)
  have sl: \<open>slice (strip ?t) 8 (108 + 1) = str ''{"missing_keywords": 3, "missing_skills": {}, "suggestions": ["Add AWS"], "compatibility_score": 150}''\<close>
    unfolding st by (simp add: slice_def str_def)
  have f: "find_char (of_char (CHR ''{'')) (strip ?t) = Some 8"
    unfolding st by (simp add: find_char_def str_def)
  have r: "rfind_char (of_char (CHR ''}'')) (strip ?t) = Some 108"
    unfolding st by (simp add: rfind_char_def str_def)
  have ex: "\<exists>d. parse_analysis_response sample_json_loads (\<lambda>s. None) ?t = Inr d \<and>
       d (str ''compatibility_score'') = Some (PInt 100)"
    apply (simp only: parse_analysis_response_def Let_def f r prod.case option.case sl)
    apply (simp only: sample_json_loads_def if_True json_outcome.case)
    by (simp add: sample_json_loads_def required_fields_def repair_analysis_def fix_score_def
        fix_suggestions_def fix_missing_skills_def fix_missing_keywords_def add_optional_defaults_def
        is_list_def is_dict_def py_float_def clamp_score_def Let_def str_def)
  then obtain d where d: "parse_analysis_response sample_json_loads (\<lambda>s. None) ?t = Inr d"
    and sc: "d (str ''compatibility_score'') = Some (PInt 100)" by blast
  from parse_analysis_response_invariant [OF d] d sc show ?thesis by blast
qed

section \<open>Properties of the PII redaction\<close>

lemma sort_entities_single [simp]: "sort_entities [x] = [x]"
  by (simp add: sort_entities_def)

lemma apply_pii_submitted:
  assumes "apply_pii_redaction_to_text detect txt = (res, submitted_log)"
  shows "submitted_log = [] \<or> submitted_log = [take 5000 txt]"
  using assms
  by (auto simp: apply_pii_redaction_to_text_def Let_def
      split: if_splits detect_outcome.splits prod.splits)

lemma apply_pii_detected:
  assumes "apply_pii_redaction_to_text detect txt = (res, [submitted])"
    and "detect submitted = Entities es" and "es \<noteq> []"
  shows "submitted = take 5000 txt"
    and "res = (case foldl (redact_entity text_threshold) (txt, 0) (sort_entities es) of
                 (redacted_text, redaction_count) \<Rightarrow>
                    if redaction_count > 0
                    then \<lparr>pii_success = True, pii_text = redacted_text, pii_redacted = True\<rparr>
                    else \<lparr>pii_success = True, pii_text = txt, pii_redacted = False\<rparr>)"
proof -
  show s: "submitted = take 5000 txt"
    using assms(1) apply_pii_submitted [OF assms(1)] by simp
  have g: "\<not> (txt = [] \<or> length (strip txt) < 10)"
    using assms(1) by (auto simp: apply_pii_redaction_to_text_def)
  show "res = (case foldl (redact_entity text_threshold) (txt, 0) (sort_entities es) of
                 (redacted_text, redaction_count) \<Rightarrow>
                    if redaction_count > 0
                    then \<lparr>pii_success = True, pii_text = redacted_text, pii_redacted = True\<rparr>
                    else \<lparr>pii_success = True, pii_text = txt, pii_redacted = False\<rparr>)"
    using assms g unfolding s
    by (auto simp: apply_pii_redaction_to_text_def Let_def split: prod.splits)
qed

text \<open>
  Claim C7. In a run that submitted a text to detection and got back a single span at
  confidence 0.7 or more, lying within the submitted text, the output is the input with
  exactly that span replaced by \<open>min(length, 8)\<close> asterisks, every character before and
  after the span unchanged; a span of 20 characters becomes 8 asterisks.
\<close>

theorem apply_pii_redaction_single_span:
  assumes "apply_pii_redaction_to_text detect txt = (res, [submitted])"
    and "detect submitted = Entities [ent]"
    and "text_threshold \<le> Score ent"
    and "0 \<le> BeginOffset ent" and "BeginOffset ent \<le> EndOffset ent"
    and "EndOffset ent \<le> int (length submitted)"
  shows "pii_text res =
           take (nat (BeginOffset ent)) txt
             @ replicate (min (nat (EndOffset ent - BeginOffset ent)) 8) star
             @ drop (nat (EndOffset ent)) txt \<and>
         pii_redacted res \<and> pii_success res \<and>
         (EndOffset ent - BeginOffset ent = 20 \<longrightarrow>
            pii_text res =
              take (nat (BeginOffset ent)) txt @ replicate 8 star
                @ drop (nat (BeginOffset ent) + 20) txt)"
proof -
  have r: "res = (case foldl (redact_entity text_threshold) (txt, 0) (sort_entities [ent]) of
                 (redacted_text, redaction_count) \<Rightarrow>
                    if redaction_count > 0
                    then \<lparr>pii_success = True, pii_text = redacted_text, pii_redacted = True\<rparr>
                    else \<lparr>pii_success = True, pii_text = txt, pii_redacted = False\<rparr>)"
    using apply_pii_detected(2) [OF assms(1,2)] by simp
  have m: "nat (min (EndOffset ent - BeginOffset ent) 8) = min (nat (EndOffset ent - BeginOffset ent)) 8"
    by auto
  have t: "pii_text res =
           take (nat (BeginOffset ent)) txt
             @ replicate (min (nat (EndOffset ent - BeginOffset ent)) 8) star
             @ drop (nat (EndOffset ent)) txt" and f: "pii_redacted res" "pii_success res"
    unfolding r using assms(3,4,5) m
    by (simp_all add: redact_entity_def py_take_def py_drop_def Let_def)
  have "nat (EndOffset ent) = nat (BeginOffset ent) + 20" if "EndOffset ent - BeginOffset ent = 20"
    using that assms(4) by linarith
  then show ?thesis
    using t f by auto
qed

lemma email_text_run:
  "apply_pii_redaction_to_text email_detector email_text =
     (fst (apply_pii_redaction_to_text email_detector email_text), [take 5000 email_text])"
proof -
  have "length (strip email_text) = 33"
    by (simp add: email_text_def strip_def str_def py_isspace_def)
  then have "snd (apply_pii_redaction_to_text email_detector email_text) = [take 5000 email_text]"
    by (simp add: apply_pii_redaction_to_text_def Let_def email_detector_def email_text_def str_def
        split: prod.splits)
  then show ?thesis
    by (metis prod.collapse)
qed

theorem apply_pii_redaction_single_span_witness:
  "pii_text (fst (apply_pii_redaction_to_text email_detector email_text)) = str ''Contact: ******** now'' \<and>
   pii_redacted (fst (apply_pii_redaction_to_text email_detector email_text))"
proof -
  let ?ent = "\<lparr>Score = 0.99, BeginOffset = 9, EndOffset = 29, Type = str ''EMAIL''\<rparr>"
  have d: "email_detector (take 5000 email_text) = Entities [?ent]"
    by (simp add: email_detector_def)
  have c: "text_threshold \<le> Score ?ent" by (simp add: text_threshold_def)
  have s: "0 \<le> BeginOffset ?ent" "BeginOffset ?ent \<le> EndOffset ?ent"
    "EndOffset ?ent \<le> int (length (take 5000 email_text))"
    by (simp_all add: email_text_def str_def)
  have e: "EndOffset ?ent - BeginOffset ?ent = 20" by simp
  from apply_pii_redaction_single_span [OF email_text_run d c s] e
  have "pii_text (fst (apply_pii_redaction_to_text email_detector email_text)) =
          take (nat (BeginOffset ?ent)) email_text @ replicate 8 star
            @ drop (nat (BeginOffset ?ent) + 20) email_text"
    and "pii_redacted (fst (apply_pii_redaction_to_text email_detector email_text))"
    by blast+
  moreover have "replicate 8 star = [star, star, star, star, star, star, star, star]"
    by (simp add: numeral_eq_Suc)
  ultimately show ?thesis
    by (simp add: email_text_def str_def star_def)
qed

lemma apart_sym: "apart x y = apart y x"
  by (auto simp: apart_def)

lemma pairwise_apart_insort:
  "pairwise_apart (insort_key f x xs) = (list_all (apart x) xs \<and> pairwise_apart xs)"
  by (induction xs) (auto simp: list_all_iff set_insort_key apart_sym)

lemma pairwise_apart_sort: "pairwise_apart (sort_key f xs) = pairwise_apart xs"
  by (induction xs) (auto simp: pairwise_apart_insort list_all_iff)

lemma sorted_descending_chain:
  "sorted (map (\<lambda>x. - BeginOffset x) xs) \<Longrightarrow> pairwise_apart xs \<Longrightarrow>
   \<forall>x\<in>set xs. 0 \<le> BeginOffset x \<and> BeginOffset x < EndOffset x \<and> EndOffset x \<le> B \<Longrightarrow>
   descending_chain B xs"
proof (induction xs arbitrary: B)
  case Nil
  then show ?case by simp
next
  case (Cons x xs)
  have "\<forall>y\<in>set xs. EndOffset y \<le> BeginOffset x"
  proof
    fix y assume y: "y \<in> set xs"
    then have "BeginOffset y \<le> BeginOffset x" using Cons.prems(1) by auto
    moreover have "BeginOffset x < EndOffset x" using Cons.prems(3) by simp
    moreover have "apart x y" using Cons.prems(2) y by (simp add: list_all_iff)
    ultimately show "EndOffset y \<le> BeginOffset x" by (auto simp: apart_def)
  qed
  then have "descending_chain (BeginOffset x) xs"
    using Cons.IH [of "BeginOffset x"] Cons.prems by auto
  then show ?case using Cons.prems(3) by simp
qed

lemma sort_entities_chain:
  assumes "pairwise_apart es"
    and "\<forall>x\<in>set es. 0 \<le> BeginOffset x \<and> BeginOffset x < EndOffset x \<and> EndOffset x \<le> B"
  shows "descending_chain B (sort_entities es)"
  unfolding sort_entities_def
  by (rule sorted_descending_chain) (use assms in \<open>simp_all add: pairwise_apart_sort\<close>)

lemma foldl_redact_suffix:
  "descending_chain B es \<Longrightarrow> nat B \<le> length r \<Longrightarrow>
   \<exists>p. fst (foldl (redact_entity th) (r, c) es) = p @ drop (nat B) r"
proof (induction es arbitrary: r c B)
  case Nil
  have "r = take (nat B) r @ drop (nat B) r" by simp
  then show ?case by (metis foldl_Nil fst_conv)
next
  case (Cons x xs)
  let ?b = "nat (BeginOffset x)" and ?e = "nat (EndOffset x)"
  have ord: "0 \<le> BeginOffset x" "?b \<le> ?e" "?e \<le> nat B" "?e \<le> length r"
    and ch: "descending_chain (BeginOffset x) xs"
    using Cons.prems by auto
  obtain r1 c1 where st: "redact_entity th (r, c) x = (r1, c1)"
    by (cases "redact_entity th (r, c) x") auto
  have r1: "r1 = r \<or> r1 = take ?b r @ replicate (nat (min (EndOffset x - BeginOffset x) 8)) star @ drop ?e r"
    using st ord(1) Cons.prems(1)
    by (auto simp: redact_entity_def py_take_def py_drop_def Let_def split: if_splits)
  have tb: "length (take ?b r) = ?b" using ord by simp
  have len: "?b \<le> length r1"
  proof (rule disjE [OF r1])
    assume "r1 = r" then show ?thesis using ord by simp
  next
    assume a: "r1 = take ?b r @ replicate (nat (min (EndOffset x - BeginOffset x) 8)) star @ drop ?e r"
    have "length r1 = length (take ?b r) + length (replicate (nat (min (EndOffset x - BeginOffset x) 8)) star @ drop ?e r)"
      unfolding a by (simp only: length_append)
    then show ?thesis using tb by linarith
  qed
  from Cons.IH [OF ch len, of c1] obtain p where
    p: "fst (foldl (redact_entity th) (r1, c1) xs) = p @ drop ?b r1" by blast
  have e_r: "drop ?e r = take (nat B - ?e) (drop ?e r) @ drop (nat B) r"
    using ord(3) by (metis append_take_drop_id drop_drop le_add_diff_inverse2)
  have b_r: "drop ?b r = take (nat B - ?b) (drop ?b r) @ drop (nat B) r"
    using ord(2,3) by (metis append_take_drop_id drop_drop le_add_diff_inverse2 le_trans)
  have "\<exists>q. drop ?b r1 = q @ drop (nat B) r"
  proof (rule disjE [OF r1])
    assume "r1 = r"
    then show ?thesis using b_r by metis
  next
    assume a: "r1 = take ?b r @ replicate (nat (min (EndOffset x - BeginOffset x) 8)) star @ drop ?e r"
    from tb have "drop ?b r1 = replicate (nat (min (EndOffset x - BeginOffset x) 8)) star @ drop ?e r"
      unfolding a by simp
    then show ?thesis using e_r by (metis append.assoc)
  qed
  then obtain q where "drop ?b r1 = q @ drop (nat B) r" by blast
  then have "fst (foldl (redact_entity th) (r, c) (x # xs)) = (p @ q) @ drop (nat B) r"
    using p st by simp
  then show ?case by blast
qed

lemma apply_pii_cases:
  "pii_text (fst (apply_pii_redaction_to_text detect txt)) = txt \<or>
   (\<exists>es. detect (take 5000 txt) = Entities es \<and>
      pii_text (fst (apply_pii_redaction_to_text detect txt)) =
        fst (foldl (redact_entity text_threshold) (txt, 0) (sort_entities es)))"
  by (auto simp: apply_pii_redaction_to_text_def Let_def
      split: detect_outcome.splits prod.splits)

lemma apply_pii_suffix:
  assumes a: "\<And>es. detect (take 5000 txt) = Entities es \<Longrightarrow>
             pairwise_apart es \<and>
             (\<forall>x\<in>set es. 0 \<le> BeginOffset x \<and> BeginOffset x < EndOffset x \<and> EndOffset x \<le> int M)"
  shows "suffix (drop M txt) (pii_text (fst (apply_pii_redaction_to_text detect txt)))"
proof (cases "M \<le> length txt")
  case False
  then show ?thesis by simp
next
  case True
  from apply_pii_cases [of detect "txt"] show ?thesis
  proof
    assume "pii_text (fst (apply_pii_redaction_to_text detect txt)) = txt"
    then show ?thesis by (simp add: suffix_drop)
  next
    assume "\<exists>es. detect (take 5000 txt) = Entities es \<and>
      pii_text (fst (apply_pii_redaction_to_text detect txt)) =
        fst (foldl (redact_entity text_threshold) (txt, 0) (sort_entities es))"
    then obtain es where es: "detect (take 5000 txt) = Entities es"
      and out: "pii_text (fst (apply_pii_redaction_to_text detect txt)) =
        fst (foldl (redact_entity text_threshold) (txt, 0) (sort_entities es))" by blast
    have "descending_chain (int M) (sort_entities es)"
      using sort_entities_chain a [OF es] by blast
    from foldl_redact_suffix [OF this, of "txt" text_threshold 0] True
    show ?thesis unfolding out by (auto simp: suffix_def)
  qed
qed

text \<open>
  The window. Whatever the detection answers, the function submits nothing or exactly
  the first 5000 characters of the text, so a span at or beyond offset 5000 is never
  detected.
\<close>

lemma apply_pii_redaction_submits_window:
  "snd (apply_pii_redaction_to_text detect txt) = [] \<or>
   snd (apply_pii_redaction_to_text detect txt) = [take 5000 txt]"
  using apply_pii_submitted [of detect "txt"] by (metis prod.collapse)

text \<open>
  When the detected spans are non-empty ranges of the submitted text and no two of them
  overlap, the descending order keeps every offset valid: the text from offset 5000 on,
  and the text after every detected span's end offset, is carried to the end of the
  output unchanged.
\<close>

lemma apply_pii_redaction_disjoint_spans:
  assumes "\<forall>es. detect (take 5000 txt) = Entities es \<longrightarrow> disjoint_spans (length (take 5000 txt)) es"
  shows "suffix (drop 5000 txt) (pii_text (fst (apply_pii_redaction_to_text detect txt))) \<and>
         (\<forall>es M. detect (take 5000 txt) = Entities es \<and> list_all (\<lambda>x. EndOffset x \<le> int M) es \<longrightarrow>
            suffix (drop M txt) (pii_text (fst (apply_pii_redaction_to_text detect txt))))"
proof (intro conjI allI impI)
  show "suffix (drop 5000 txt) (pii_text (fst (apply_pii_redaction_to_text detect txt)))"
  proof (rule apply_pii_suffix)
    fix es assume "detect (take 5000 txt) = Entities es"
    with assms have "disjoint_spans (length (take 5000 txt)) es" by blast
    then show "pairwise_apart es \<and>
        (\<forall>x\<in>set es. 0 \<le> BeginOffset x \<and> BeginOffset x < EndOffset x \<and> EndOffset x \<le> int 5000)"
      by (auto simp: disjoint_spans_def span_within_def list_all_iff)
  qed
next
  fix es M
  assume h: "detect (take 5000 txt) = Entities es \<and> list_all (\<lambda>x. EndOffset x \<le> int M) es"
  show "suffix (drop M txt) (pii_text (fst (apply_pii_redaction_to_text detect txt)))"
  proof (rule apply_pii_suffix)
    fix es' assume e': "detect (take 5000 txt) = Entities es'"
    with h have "es' = es" by simp
    moreover from assms e' have "disjoint_spans (length (take 5000 txt)) es'" by blast
    ultimately show "pairwise_apart es' \<and>
        (\<forall>x\<in>set es'. 0 \<le> BeginOffset x \<and> BeginOffset x < EndOffset x \<and> EndOffset x \<le> int M)"
      using h by (auto simp: disjoint_spans_def span_within_def list_all_iff)
  qed
qed

lemma apply_pii_redaction_disjoint_spans_example:
  "snd (apply_pii_redaction_to_text email_detector email_text) = [take 5000 email_text] \<and>
   suffix (str '' now'') (pii_text (fst (apply_pii_redaction_to_text email_detector email_text)))"
proof -
  let ?ent = "\<lparr>Score = 0.99, BeginOffset = 9, EndOffset = 29, Type = str ''EMAIL''\<rparr>"
  have d: "email_detector (take 5000 email_text) = Entities [?ent]"
    by (simp add: email_detector_def)
  have w: "\<forall>es. email_detector (take 5000 email_text) = Entities es \<longrightarrow>
             disjoint_spans (length (take 5000 email_text)) es"
    by (simp add: email_detector_def disjoint_spans_def span_within_def email_text_def str_def)
  have e: "email_detector (take 5000 email_text) = Entities [?ent] \<and>
           list_all (\<lambda>x. EndOffset x \<le> int 29) [?ent]"
    using d by simp
  from apply_pii_redaction_disjoint_spans [of email_detector email_text, OF w] e
  have "suffix (drop 29 email_text) (pii_text (fst (apply_pii_redaction_to_text email_detector email_text)))"
    by blast
  moreover have "drop 29 email_text = str '' now''"
    by (simp add: email_text_def str_def)
  moreover have "snd (apply_pii_redaction_to_text email_detector email_text) = [take 5000 email_text]"
    using email_text_run by (metis snd_conv)
  ultimately show ?thesis by simp
qed

text \<open>
  Claim C10 at two overlapping spans. The detection answers the spans from 10 to 20 and
  from 5 to 30 of a text of 40 characters. The redaction of the inner span shortens the
  text by two characters, the end offset of the outer span then points two characters
  further, and the characters \<open>kl\<close> at the offsets 30 and 31, after the end of every
  detected span, are missing from the output: the text after the last detected span is
  not carried over unchanged.
\<close>

theorem apply_pii_redaction_overlapping_spans:
  "snd (apply_pii_redaction_to_text overlap_detector overlap_text) = [take 5000 overlap_text] \<and>
   pii_text (fst (apply_pii_redaction_to_text overlap_detector overlap_text)) = str ''01234********mnopqrst'' \<and>
   drop 30 overlap_text = str ''klmnopqrst'' \<and>
   \<not> suffix (drop 30 overlap_text)
        (pii_text (fst (apply_pii_redaction_to_text overlap_detector overlap_text)))"
proof -
  have l: "length (strip overlap_text) = 40"
    by (simp add: overlap_text_def strip_def str_def py_isspace_def)
  have r8: "replicate 8 star = [star, star, star, star, star, star, star, star]"
    by (simp add: numeral_eq_Suc)
  have n: "overlap_text \<noteq> []" by (simp add: overlap_text_def str_def)
  have o: "pii_text (fst (apply_pii_redaction_to_text overlap_detector overlap_text)) = str ''01234********mnopqrst''"
    using l
    by (simp add: apply_pii_redaction_to_text_def Let_def overlap_detector_def sort_entities_def
        redact_entity_def py_take_def py_drop_def text_threshold_def r8)
       (simp add: overlap_text_def str_def star_def)
  have s: "snd (apply_pii_redaction_to_text overlap_detector overlap_text) = [take 5000 overlap_text]"
    using l n
    by (simp add: apply_pii_redaction_to_text_def Let_def overlap_detector_def split: prod.splits)
  have d: "drop 30 overlap_text = str ''klmnopqrst''"
    by (simp add: overlap_text_def str_def)
  have "\<not> suffix (str ''klmnopqrst'') (str ''01234********mnopqrst'')"
    by (simp add: suffix_to_prefix str_def)
  then show ?thesis using o d s by simp
qed

section \<open>Properties of the pipeline handlers\<close>

lemma analyze_report_update [simp]:
  "analyze_resume_vs_job_description (env\<lparr>create_complete_report_package := g\<rparr>) r j =
   analyze_resume_vs_job_description env r j"
  by (simp add: analyze_resume_vs_job_description_def)

lemma reports_bucket_update [simp]:
  "pipeline_reports_bucket (env\<lparr>create_complete_report_package := g\<rparr>) pev = pipeline_reports_bucket env pev"
  "analysis_reports_bucket (env\<lparr>create_complete_report_package := g\<rparr>) aev = analysis_reports_bucket env aev"
  by (simp_all add: pipeline_reports_bucket_def analysis_reports_bucket_def split: option.splits)

lemma handle_complete_analysis_report_failure:
  assumes ok: "handle_complete_analysis (env\<lparr>create_complete_report_package := good\<rparr>) ev =
             SuccessResponse (AnalysisOnly b)"
    and stored: "analysis_reports b = StoredReports pkg"
    and bad: "report_generation_fails bad"
  shows "\<exists>rid ts err.
           handle_complete_analysis (env\<lparr>create_complete_report_package := bad\<rparr>) ev =
             SuccessResponse (AnalysisOnly
               \<lparr>analysis_only_summary = analysis_only_summary b,
                analysis_reports = ReportsNote rid ts not_saved_message (Some err),
                execution_mode = Some (str ''local_fallback'')\<rparr>)"
proof -
  let ?rb = "analysis_reports_bucket env ev"
  let ?fn = "(case ev_analysis_resume_filename ev of Some f \<Rightarrow> f | None \<Rightarrow> str ''resume.txt'')"
  let ?ti = "(case ev_analysis_job_title ev of Some t \<Rightarrow> t | None \<Rightarrow> str ''Position'')"
  from ok stored obtain d score summary where
    a: "analyze_resume_vs_job_description env (ev_resume_text ev) (ev_analysis_job_description ev) = Inr d"
    and s: "d (str ''compatibility_score'') = Some score"
    and m: "make_summary d score = Some summary"
    and g: "should_generate_reports ?rb"
    and b: "analysis_only_summary b = summary"
    by (auto simp: handle_complete_analysis_def Let_def missing_parameter_def local_fallback_def
        split: sum.splits option.splits if_splits report_outcome.splits)
  from bad obtain e where "bad d ?rb ?fn ?ti = ReportFailed e \<or> bad d ?rb ?fn ?ti = ReportRaises e"
    unfolding report_generation_fails_def by blast
  then have "handle_complete_analysis (env\<lparr>create_complete_report_package := bad\<rparr>) ev =
      local_fallback summary ?fn ?ti e"
    using a s m g by (auto simp: handle_complete_analysis_def Let_def)
  then show ?thesis
    unfolding local_fallback_def b by blast
qed

lemma analyze_and_report_failure:
  assumes ok: "analyze_and_report (env\<lparr>create_complete_report_package := good\<rparr>) ev dd tx st
                 = SuccessResponse b"
    and bad: "report_generation_fails bad"
  shows "\<exists>m. analyze_and_report (env\<lparr>create_complete_report_package := bad\<rparr>) ev dd tx st
               = ErrorResponse 500 m"
proof -
  let ?rb = "pipeline_reports_bucket env ev"
  let ?fn = "(case ev_resume_filename ev of Some f \<Rightarrow> f | None \<Rightarrow> last_segment (ev_s3_key ev))"
  let ?ti = "(case ev_job_title ev of Some t \<Rightarrow> t | None \<Rightarrow> str ''Position'')"
  from ok obtain d score where
    a: "analyze_resume_vs_job_description env tx (ev_job_description ev) = Inr d"
    and s: "d (str ''compatibility_score'') = Some score"
    by (auto simp: analyze_and_report_def Let_def missing_parameter_def
        split: sum.splits option.splits)
  from bad obtain e where "bad d ?rb ?fn ?ti = ReportFailed e \<or> bad d ?rb ?fn ?ti = ReportRaises e"
    unfolding report_generation_fails_def by blast
  then show ?thesis
    using a s by (auto simp: analyze_and_report_def Let_def)
qed

text \<open>The text the pipeline analyses, when it gets that far, and the status it reports.\<close>

lemma handle_complete_pipeline_response:
  "fst (handle_complete_pipeline env cache ev) =
     (let dedup = check_file_deduplication env cache (ev_bucket_name ev) (ev_s3_key ev)
      in if is_duplicate dedup then
           (case cached_data dedup of
              None \<Rightarrow> ErrorResponse 500 (str ''Failed to complete processing pipeline'')
            | Some item \<Rightarrow>
                analyze_and_report env ev dedup (item_extracted_text item) (str ''deduplicated''))
         else
           (case extract_text_from_s3_pdf env (ev_bucket_name ev) (ev_s3_key ev) of
              Inl err \<Rightarrow> ErrorResponse 422 (str ''Text extraction failed: '' @ err)
            | Inr raw_text \<Rightarrow>
                analyze_and_report env ev dedup
                  (pii_text (fst (apply_pii_redaction_to_text (detect_pii_entities env) raw_text)))
                  (str ''processed'')))"
  by (simp add: handle_complete_pipeline_def Let_def split: option.splits sum.splits prod.splits)

lemma dedup_helpers_report_update [simp]:
  "calculate_file_hash (env\<lparr>create_complete_report_package := g\<rparr>) c = calculate_file_hash env c"
  "get_resume_cache (env\<lparr>create_complete_report_package := g\<rparr>) cache h = get_resume_cache env cache h"
  by (simp_all add: calculate_file_hash_def get_resume_cache_def)

lemma calculate_s3_file_hash_report_update [simp]:
  "calculate_s3_file_hash (env\<lparr>create_complete_report_package := g\<rparr>) b k =
   calculate_s3_file_hash env b k"
  by (simp add: calculate_s3_file_hash_def split: option.splits)

lemma check_file_deduplication_report_update [simp]:
  "check_file_deduplication (env\<lparr>create_complete_report_package := g\<rparr>) cache b k =
   check_file_deduplication env cache b k"
  by (simp add: check_file_deduplication_def split: option.splits)

lemma handle_complete_pipeline_report_failure:
  assumes ok: "fst (handle_complete_pipeline (env\<lparr>create_complete_report_package := good\<rparr>) cache ev)
                 = SuccessResponse b"
    and bad: "report_generation_fails bad"
  shows "\<exists>m. fst (handle_complete_pipeline (env\<lparr>create_complete_report_package := bad\<rparr>) cache ev)
               = ErrorResponse 500 m"
proof -
  let ?dd = "check_file_deduplication env cache (ev_bucket_name ev) (ev_s3_key ev)"
  show ?thesis
  proof (cases "is_duplicate ?dd")
    case True
    then obtain item where c: "cached_data ?dd = Some item"
      and a: "analyze_and_report (env\<lparr>create_complete_report_package := good\<rparr>) ev ?dd
                (item_extracted_text item) (str ''deduplicated'') = SuccessResponse b"
      using ok by (auto simp: handle_complete_pipeline_response Let_def split: option.splits)
    from analyze_and_report_failure [OF a bad] True c show ?thesis
      by (simp add: handle_complete_pipeline_response Let_def)
  next
    case False
    then obtain raw where x: "extract_text_from_s3_pdf env (ev_bucket_name ev) (ev_s3_key ev) = Inr raw"
      and a: "analyze_and_report (env\<lparr>create_complete_report_package := good\<rparr>) ev ?dd
                (pii_text (fst (apply_pii_redaction_to_text (detect_pii_entities env) raw)))
                (str ''processed'') = SuccessResponse b"
      using ok by (auto simp: handle_complete_pipeline_response Let_def split: sum.splits)
    from analyze_and_report_failure [OF a bad] False x show ?thesis
      by (simp add: handle_complete_pipeline_response Let_def)
  qed
qed

text \<open>
  Claim C6. When a run that would return stored reports has its report generation fail
  instead, \<open>handle_complete_analysis\<close> still returns a success envelope, with the same
  analysis summary and the note that the reports were not saved, while
  \<open>handle_complete_pipeline\<close> returns a failure envelope with status 500.
\<close>

theorem report_failure_asymmetry:
  assumes "report_generation_fails bad"
  shows "(handle_complete_analysis (env\<lparr>create_complete_report_package := good\<rparr>) aev =
            SuccessResponse (AnalysisOnly b) \<and> analysis_reports b = StoredReports pkg \<longrightarrow>
          (\<exists>rid ts err.
             handle_complete_analysis (env\<lparr>create_complete_report_package := bad\<rparr>) aev =
               SuccessResponse (AnalysisOnly
                 \<lparr>analysis_only_summary = analysis_only_summary b,
                  analysis_reports = ReportsNote rid ts not_saved_message (Some err),
                  execution_mode = Some (str ''local_fallback'')\<rparr>))) \<and>
         (fst (handle_complete_pipeline (env\<lparr>create_complete_report_package := good\<rparr>) cache pev) =
            SuccessResponse pb \<longrightarrow>
          (\<exists>m. fst (handle_complete_pipeline (env\<lparr>create_complete_report_package := bad\<rparr>) cache pev) =
               ErrorResponse 500 m))"
  using handle_complete_analysis_report_failure [OF _ _ assms]
    handle_complete_pipeline_report_failure [OF _ assms]
  by blast

lemma analyze_and_report_success:
  assumes "analyze_and_report env ev dd tx st = SuccessResponse (PipelineCompleted p)"
  shows "deduplication_status p = st \<and> text_extraction p = st \<and> extracted_text_length p = length tx"
  using assms
  by (auto simp: analyze_and_report_def Let_def missing_parameter_def
      split: sum.splits option.splits report_outcome.splits)

lemma first_run_stored:
  assumes "handle_complete_pipeline env cache ev = (SuccessResponse (PipelineCompleted p), cache', Some True)"
  shows "\<exists>h tx fn.
           calculate_s3_file_hash env (ev_bucket_name ev) (ev_s3_key ev) = Some h \<and> h \<noteq> [] \<and>
           cache' h = Some \<lparr>item_file_hash = h, item_extracted_text = tx,
                            item_original_filename = fn, item_ttl = time_now env + 12 * 60 * 60\<rparr> \<and>
           analyze_and_report env ev
             (check_file_deduplication env cache (ev_bucket_name ev) (ev_s3_key ev)) tx (str ''processed'')
             = SuccessResponse (PipelineCompleted p)"
proof -
  let ?dd = "check_file_deduplication env cache (ev_bucket_name ev) (ev_s3_key ev)"
  have nd: "\<not> is_duplicate ?dd"
    using assms by (auto simp: handle_complete_pipeline_def Let_def split: option.splits)
  then obtain raw where x: "extract_text_from_s3_pdf env (ev_bucket_name ev) (ev_s3_key ev) = Inr raw"
    using assms by (auto simp: handle_complete_pipeline_def Let_def split: sum.splits)
  let ?tx = "pii_text (fst (apply_pii_redaction_to_text (detect_pii_entities env) raw))"
  let ?fn = "(case ev_resume_filename ev of Some f \<Rightarrow> f | None \<Rightarrow> last_segment (ev_s3_key ev))"
  from assms nd x obtain h where h: "file_hash ?dd = Some h" "h \<noteq> []"
    and st: "store_processed_file env cache h ?tx ?fn = (True, cache')"
    and a: "analyze_and_report env ev ?dd ?tx (str ''processed'') = SuccessResponse (PipelineCompleted p)"
    by (auto simp: handle_complete_pipeline_def Let_def split: option.splits if_splits prod.splits)
  have c: "calculate_s3_file_hash env (ev_bucket_name ev) (ev_s3_key ev) = Some h"
    using h by (auto simp: check_file_deduplication_def split: option.splits if_splits)
  have "cache' h = Some \<lparr>item_file_hash = h, item_extracted_text = ?tx,
                            item_original_filename = ?fn, item_ttl = time_now env + 12 * 60 * 60\<rparr>"
    using st by (auto simp: store_processed_file_def put_resume_cache_def split: if_splits)
  with c h a show ?thesis by blast
qed

text \<open>
  Claim C2, amended. Two invocations of the complete pipeline on the same object bytes
  and the same event: when the first returns success and its cache store succeeded, and
  the second, reading the same bytes with the cache table readable, returns success, then
  the first reports the status \<open>processed\<close>, the second \<open>deduplicated\<close>, and both
  report the same extracted text length. The second neither extracts nor stores.
\<close>

theorem dedup_idempotence:
  assumes "handle_complete_pipeline env1 cache0 ev = (SuccessResponse (PipelineCompleted p1), cache1, Some True)"
    and "handle_complete_pipeline env2 cache1 ev = (SuccessResponse (PipelineCompleted p2), cache2, stored2)"
    and "s3_get_object env2 (ev_bucket_name ev) (ev_s3_key ev) = s3_get_object env1 (ev_bucket_name ev) (ev_s3_key ev)"
    and "sha256_hexdigest env2 = sha256_hexdigest env1"
    and "\<not> dynamodb_get_fails env2"
  shows "deduplication_status p1 = str ''processed'' \<and>
         deduplication_status p2 = str ''deduplicated'' \<and>
         extracted_text_length p2 = extracted_text_length p1 \<and>
         cache2 = cache1 \<and> stored2 = None"
proof -
  from first_run_stored [OF assms(1)] obtain h tx fn where
    h: "calculate_s3_file_hash env1 (ev_bucket_name ev) (ev_s3_key ev) = Some h" "h \<noteq> []"
    and c: "cache1 h = Some \<lparr>item_file_hash = h, item_extracted_text = tx,
                            item_original_filename = fn, item_ttl = time_now env1 + 12 * 60 * 60\<rparr>"
    and a: "analyze_and_report env1 ev
             (check_file_deduplication env1 cache0 (ev_bucket_name ev) (ev_s3_key ev)) tx (str ''processed'')
             = SuccessResponse (PipelineCompleted p1)" by blast
  have h2: "calculate_s3_file_hash env2 (ev_bucket_name ev) (ev_s3_key ev) = Some h"
    using h(1) assms(3,4)
    by (auto simp: calculate_s3_file_hash_def calculate_file_hash_def split: option.splits if_splits)
  let ?dd = "check_file_deduplication env2 cache1 (ev_bucket_name ev) (ev_s3_key ev)"
  have d: "is_duplicate ?dd" "cached_data ?dd = Some \<lparr>item_file_hash = h, item_extracted_text = tx,
                            item_original_filename = fn, item_ttl = time_now env1 + 12 * 60 * 60\<rparr>"
    using h2 h(2) c assms(5) by (simp_all add: check_file_deduplication_def get_resume_cache_def)
  have r2: "handle_complete_pipeline env2 cache1 ev =
          (analyze_and_report env2 ev ?dd tx (str ''deduplicated''), cache1, None)"
    using d by (simp add: handle_complete_pipeline_def Let_def)
  from r2 assms(2) have e: "(analyze_and_report env2 ev ?dd tx (str ''deduplicated''), cache1, None)
      = (SuccessResponse (PipelineCompleted p2), cache2, stored2)"
    by (rule trans [OF sym])
  then have a2: "analyze_and_report env2 ev ?dd tx (str ''deduplicated'')
      = SuccessResponse (PipelineCompleted p2)" and cs: "cache2 = cache1" "stored2 = None"
    by blast+
  from analyze_and_report_success [OF a] analyze_and_report_success [OF a2] cs show ?thesis
    by simp
qed

lemma lookup_fails_not_duplicate:
  assumes "dedup_lookup_fails env b k"
  shows "\<not> is_duplicate (check_file_deduplication env cache b k)"
  using assms
  by (auto simp: dedup_lookup_fails_def check_file_deduplication_def get_resume_cache_def
      split: option.splits)

lemma analyze_and_report_same_outcome:
  assumes "invoke_analysis env' = invoke_analysis env"
    and "create_complete_report_package env' = create_complete_report_package env"
    and "env_REPORTS_BUCKET env' = env_REPORTS_BUCKET env"
  shows "same_outcome (analyze_and_report env ev d1 tx st) (analyze_and_report env' ev d2 tx st)"
proof -
  have a: "analyze_resume_vs_job_description env' tx (ev_job_description ev) =
           analyze_resume_vs_job_description env tx (ev_job_description ev)"
    using assms(1) by (simp add: analyze_resume_vs_job_description_def)
  have b: "pipeline_reports_bucket env' ev = pipeline_reports_bucket env ev"
    using assms(3) by (simp add: pipeline_reports_bucket_def split: option.splits)
  show ?thesis
  proof (cases "analyze_resume_vs_job_description env tx (ev_job_description ev)")
    case (Inl err)
    then show ?thesis
      unfolding analyze_and_report_def Let_def a b assms(2) by (simp add: same_outcome_def)
  next
    case (Inr d)
    show ?thesis
    proof (cases "d (str ''compatibility_score'')")
      case None
      then show ?thesis
        unfolding analyze_and_report_def Let_def a b assms(2) Inr
        by (simp add: same_outcome_def missing_parameter_def)
    next
      case (Some score)
      let ?r = "create_complete_report_package env d (pipeline_reports_bucket env ev)
                  (case ev_resume_filename ev of None \<Rightarrow> last_segment (ev_s3_key ev) | Some f \<Rightarrow> f)
                  (case ev_job_title ev of None \<Rightarrow> str ''Position'' | Some t \<Rightarrow> t)"
      show ?thesis
      proof (cases ?r)
        case (Package pkg)
        show ?thesis
        proof (cases "make_summary d score")
          case None
          then show ?thesis
            unfolding analyze_and_report_def Let_def a b assms(2) Inr
            by (simp add: same_outcome_def Some Package)
        next
          case (Some summary)
          then show ?thesis
            unfolding analyze_and_report_def Let_def a b assms(2) Inr
            by (simp add: same_outcome_def \<open>d (str ''compatibility_score'') = Some score\<close> Package)
        qed
      next
        case (ReportFailed e)
        then show ?thesis
          unfolding analyze_and_report_def Let_def a b assms(2) Inr
          by (simp add: same_outcome_def Some)
      next
        case (ReportRaises e)
        then show ?thesis
          unfolding analyze_and_report_def Let_def a b assms(2) Inr
          by (simp add: same_outcome_def Some)
      qed
    qed
  qed
qed


lemma sample_texts:
  "strip (str ''Jane Doe - Python developer'') = str ''Jane Doe - Python developer''"
  "strip (str ''Python developer with AWS'') = str ''Python developer with AWS''"
  by (simp_all add: strip_def str_def py_isspace_def)

lemma sample_pii:
  "apply_pii_redaction_to_text (\<lambda>t. Entities []) (str ''Jane Doe - Python developer'') =
     (\<lparr>pii_success = True, pii_text = str ''Jane Doe - Python developer'', pii_redacted = False\<rparr>,
      [take 5000 (str ''Jane Doe - Python developer'')])"
  unfolding apply_pii_redaction_to_text_def sample_texts
  by (simp add: str_def Let_def)

lemma sample_summary:
  "make_summary sample_analysis (PInt 75) =
     Some \<lparr>compatibility_score = PInt 75, missing_keywords_count = 1,
           suggestions_count = 3, strengths_count = 0\<rparr>"
  by (simp add: make_summary_def len_of_field_def sample_analysis_def str_def)

lemma sample_analyze_and_report:
  "analyze_and_report sample_services sample_pipeline_event dd (str ''Jane Doe - Python developer'') st =
     SuccessResponse (PipelineCompleted
       \<lparr>text_extraction = st, deduplication_status = st, deduplication_message = message dd,
        deduplication_file_hash =
          (case file_hash dd of Some h \<Rightarrow> if h = [] then str ''unknown'' else take 8 h @ str ''...''
           | None \<Rightarrow> str ''unknown''),
        resume_file = str ''s3://resumes/uploads/cv.pdf'',
        resume_filename = str ''cv.pdf'', job_title = str ''Position'',
        extracted_text_length = 27, job_description_length = 25,
        pipeline_summary = \<lparr>compatibility_score = PInt 75, missing_keywords_count = 1,
           suggestions_count = 3, strengths_count = 0\<rparr>,
        pipeline_reports = sample_package\<rparr>)"
proof -
  have a: "analyze_resume_vs_job_description sample_services (str ''Jane Doe - Python developer'')
             (str ''Python developer with AWS'') = Inr sample_analysis"
    unfolding analyze_resume_vs_job_description_def
    by (simp add: sample_texts) (simp add: sample_services_def str_def)
  have s: "sample_analysis (str ''compatibility_score'') = Some (PInt 75)"
    by (simp add: sample_analysis_def str_def)
  have l: "last_segment (str ''uploads/cv.pdf'') = str ''cv.pdf''"
    by (simp add: last_segment_def str_def)
  have c: "create_complete_report_package sample_services = (\<lambda>d b f t. Package sample_package)"
    by (simp add: sample_services_def)
  have e: "ev_s3_key sample_pipeline_event = str ''uploads/cv.pdf''"
    "ev_resume_filename sample_pipeline_event = None" "ev_job_title sample_pipeline_event = None"
    "ev_bucket_name sample_pipeline_event = str ''resumes''"
    "ev_job_description sample_pipeline_event = str ''Python developer with AWS''"
    by (simp_all add: sample_pipeline_event_def)
  show ?thesis
    apply (simp only: analyze_and_report_def Let_def a sum.case s option.case c
        report_outcome.case sample_summary e l)
    apply (simp add: str_def)
    done
qed

lemma lookup_fails_same_outcome:
  assumes "dedup_lookup_fails env (ev_bucket_name ev) (ev_s3_key ev)"
    and "B \<noteq> []" and "sha256_hexdigest env B \<noteq> []"
  shows "same_outcome
           (fst (handle_complete_pipeline env cache ev))
           (fst (handle_complete_pipeline
                   (env\<lparr>s3_get_object := \<lambda>b k. Some B, dynamodb_get_fails := False,
                        dynamodb_put_fails := False\<rparr>) Map.empty ev))"
proof -
  let ?env' = "env\<lparr>s3_get_object := \<lambda>b k. Some B, dynamodb_get_fails := False,
                        dynamodb_put_fails := False\<rparr>"
  let ?dd = "check_file_deduplication env cache (ev_bucket_name ev) (ev_s3_key ev)"
  let ?dd' = "check_file_deduplication ?env' Map.empty (ev_bucket_name ev) (ev_s3_key ev)"
  have nd: "\<not> is_duplicate ?dd"
    using assms(1) by (rule lookup_fails_not_duplicate)
  have nd': "\<not> is_duplicate ?dd'"
    by (simp add: check_file_deduplication_def get_resume_cache_def split: option.splits)
  have x: "extract_text_from_s3_pdf ?env' = extract_text_from_s3_pdf env"
    and p: "detect_pii_entities ?env' = detect_pii_entities env" by simp_all
  have so: "\<And>tx st. same_outcome (analyze_and_report env ev ?dd tx st)
                         (analyze_and_report ?env' ev ?dd' tx st)"
    by (rule analyze_and_report_same_outcome) simp_all
  show ?thesis
  proof (cases "extract_text_from_s3_pdf env (ev_bucket_name ev) (ev_s3_key ev)")
    case (Inl err)
    then show ?thesis
      using nd nd' unfolding handle_complete_pipeline_response Let_def x p
      by (simp add: same_outcome_def)
  next
    case (Inr raw)
    then show ?thesis
      using nd nd' so unfolding handle_complete_pipeline_response Let_def x p
      by simp
  qed
qed

lemma same_outcome_status:
  assumes "same_outcome r1 r2"
  shows "deduplication_status_of r1 = deduplication_status_of r2"
proof (cases r1)
  case (ErrorResponse c1 m1)
  with assms obtain c2 m2 where "r2 = ErrorResponse c2 m2"
    by (cases r2) (simp_all add: same_outcome_def)
  with ErrorResponse show ?thesis by (simp add: deduplication_status_of_def)
next
  case s1: (SuccessResponse b1)
  show ?thesis
  proof (cases b1)
    case (AnalysisOnly a1)
    with s1 assms show ?thesis by (simp add: same_outcome_def)
  next
    case p1: (PipelineCompleted p1)
    show ?thesis
    proof (cases r2)
      case (ErrorResponse c2 m2)
      with s1 p1 assms show ?thesis by (simp add: same_outcome_def)
    next
      case s2: (SuccessResponse b2)
      show ?thesis
      proof (cases b2)
        case (AnalysisOnly a2)
        with s1 p1 s2 assms show ?thesis by (simp add: same_outcome_def)
      next
        case p2: (PipelineCompleted p2)
        from assms have "p1\<lparr>deduplication_message := [], deduplication_file_hash := []\<rparr> =
            p2\<lparr>deduplication_message := [], deduplication_file_hash := []\<rparr>"
          unfolding s1 p1 s2 p2 by (simp add: same_outcome_def)
        then have "deduplication_status (p1\<lparr>deduplication_message := [], deduplication_file_hash := []\<rparr>) =
            deduplication_status (p2\<lparr>deduplication_message := [], deduplication_file_hash := []\<rparr>)"
          by (rule arg_cong)
        then have "deduplication_status p1 = deduplication_status p2" by simp
        then show ?thesis unfolding s1 p1 s2 p2 by (simp add: deduplication_status_of_def)
      qed
    qed
  qed
qed



lemma sample_event_fields:
  "ev_s3_key sample_pipeline_event = str ''uploads/cv.pdf''"
  "ev_resume_filename sample_pipeline_event = None"
  "ev_bucket_name sample_pipeline_event = str ''resumes''"
  by (simp_all add: sample_pipeline_event_def)

lemma sample_hash:
  "calculate_s3_file_hash (sample_services\<lparr>dynamodb_get_fails := g\<rparr>) b k = Some (str ''3a7bd3e2360a3d29'')"
  "calculate_s3_file_hash sample_services b k = Some (str ''3a7bd3e2360a3d29'')"
  by (simp_all add: calculate_s3_file_hash_def calculate_file_hash_def sample_services_def)

lemma sample_hash_nonempty: "str ''3a7bd3e2360a3d29'' \<noteq> []"
  by (simp add: str_def)

lemma sample_check_miss:
  "check_file_deduplication sample_services Map.empty b k =
     \<lparr>is_duplicate = False, file_hash = Some (str ''3a7bd3e2360a3d29''), cached_data = None,
      message = str ''File is unique - proceeding with processing'', error = None\<rparr>"
  unfolding check_file_deduplication_def sample_hash
  by (simp add: sample_hash_nonempty get_resume_cache_def)

lemma sample_check_hit:
  "check_file_deduplication sample_services [str ''3a7bd3e2360a3d29'' \<mapsto> sample_cached_item] b k =
     \<lparr>is_duplicate = True, file_hash = Some (str ''3a7bd3e2360a3d29''),
      cached_data = Some sample_cached_item,
      message = str ''Resume already processed - using existing data from ''
                  @ item_original_filename sample_cached_item,
      error = None\<rparr>"
  unfolding check_file_deduplication_def sample_hash
  by (simp add: sample_hash_nonempty get_resume_cache_def sample_services_def)

lemma sample_extract:
  "extract_text_from_s3_pdf sample_services b k = Inr (str ''Jane Doe - Python developer'')"
  "detect_pii_entities sample_services = (\<lambda>t. Entities [])"
  by (simp_all add: sample_services_def)

lemma sample_first_run:
  "handle_complete_pipeline sample_services Map.empty sample_pipeline_event =
     (analyze_and_report sample_services sample_pipeline_event
        (check_file_deduplication sample_services Map.empty (str ''resumes'') (str ''uploads/cv.pdf''))
        (str ''Jane Doe - Python developer'') (str ''processed''),
      [str ''3a7bd3e2360a3d29'' \<mapsto> sample_cached_item], Some True)"
proof -
  have l: "last_segment (str ''uploads/cv.pdf'') = str ''cv.pdf''"
    by (simp add: last_segment_def str_def)
  have st: "store_processed_file sample_services Map.empty (str ''3a7bd3e2360a3d29'')
              (str ''Jane Doe - Python developer'') (str ''cv.pdf'') =
            (True, [str ''3a7bd3e2360a3d29'' \<mapsto> sample_cached_item])"
    by (simp add: store_processed_file_def put_resume_cache_def sample_services_def
        sample_cached_item_def)
  show ?thesis
    unfolding handle_complete_pipeline_def Let_def sample_event_fields
    by (simp only: sample_check_miss sample_extract sample_pii dedup_result.simps if_False
        sum.case option.case fst_conv pii_result.simps l sample_hash_nonempty st prod.case)
qed

lemma sample_second_run:
  "handle_complete_pipeline sample_services [str ''3a7bd3e2360a3d29'' \<mapsto> sample_cached_item]
       sample_pipeline_event =
     (analyze_and_report sample_services sample_pipeline_event
        (check_file_deduplication sample_services [str ''3a7bd3e2360a3d29'' \<mapsto> sample_cached_item]
           (str ''resumes'') (str ''uploads/cv.pdf''))
        (str ''Jane Doe - Python developer'') (str ''deduplicated''),
      [str ''3a7bd3e2360a3d29'' \<mapsto> sample_cached_item], None)"
proof -
  have t: "item_extracted_text sample_cached_item = str ''Jane Doe - Python developer''"
    by (simp add: sample_cached_item_def)
  show ?thesis
    unfolding handle_complete_pipeline_def Let_def sample_event_fields
    by (simp only: sample_check_hit dedup_result.simps if_True option.case t)
qed

theorem dedup_idempotence_witness:
  "\<exists>p1 p2 cache1.
     handle_complete_pipeline sample_services Map.empty sample_pipeline_event =
       (SuccessResponse (PipelineCompleted p1), cache1, Some True) \<and>
     handle_complete_pipeline sample_services cache1 sample_pipeline_event =
       (SuccessResponse (PipelineCompleted p2), cache1, None) \<and>
     deduplication_status p1 = str ''processed'' \<and>
     deduplication_status p2 = str ''deduplicated'' \<and>
     extracted_text_length p1 = 27 \<and>
     extracted_text_length p2 = extracted_text_length p1"
proof -
  let ?c = "[str ''3a7bd3e2360a3d29'' \<mapsto> sample_cached_item]"
  obtain p1 where r1: "handle_complete_pipeline sample_services Map.empty sample_pipeline_event =
       (SuccessResponse (PipelineCompleted p1), ?c, Some True)" and l1: "extracted_text_length p1 = 27"
    unfolding sample_first_run sample_analyze_and_report by simp
  obtain p2 where r2: "handle_complete_pipeline sample_services ?c sample_pipeline_event =
       (SuccessResponse (PipelineCompleted p2), ?c, None)"
    unfolding sample_second_run sample_analyze_and_report by simp
  have g: "\<not> dynamodb_get_fails sample_services" by (simp add: sample_services_def)
  from dedup_idempotence [OF r1 r2 refl refl g] r1 r2 l1 show ?thesis by blast
qed

text \<open>
  Claim C2, as stated, fails when the second invocation cannot read the cache table or
  does not complete. The first run of the example succeeds and stores the item. A second
  run on the same bytes and event in which the table cannot be read treats the file as
  unique and reports \<open>processed\<close>; a second run in which the model call fails
  returns an error envelope, which carries no deduplication status.
\<close>

theorem dedup_idempotence_counterexample:
  "snd (handle_complete_pipeline sample_services Map.empty sample_pipeline_event) =
     ([str ''3a7bd3e2360a3d29'' \<mapsto> sample_cached_item], Some True) \<and>
   deduplication_status_of
     (fst (handle_complete_pipeline sample_services Map.empty sample_pipeline_event)) =
     Some (str ''processed'') \<and>
   deduplication_status_of
     (fst (handle_complete_pipeline (sample_services\<lparr>dynamodb_get_fails := True\<rparr>)
        [str ''3a7bd3e2360a3d29'' \<mapsto> sample_cached_item] sample_pipeline_event)) =
     Some (str ''processed'') \<and>
   str ''processed'' \<noteq> str ''deduplicated'' \<and>
   fst (handle_complete_pipeline (sample_services\<lparr>invoke_analysis := failing_analysis\<rparr>)
        [str ''3a7bd3e2360a3d29'' \<mapsto> sample_cached_item] sample_pipeline_event) =
     ErrorResponse 422
       (str ''AI analysis failed: Analysis service is busy. Please try again later.'') \<and>
   deduplication_status_of
     (fst (handle_complete_pipeline (sample_services\<lparr>invoke_analysis := failing_analysis\<rparr>)
        [str ''3a7bd3e2360a3d29'' \<mapsto> sample_cached_item] sample_pipeline_event)) = None"
proof -
  let ?c = "[str ''3a7bd3e2360a3d29'' \<mapsto> sample_cached_item]"
  let ?g = "sample_services\<lparr>dynamodb_get_fails := True\<rparr>"
  let ?f = "sample_services\<lparr>invoke_analysis := failing_analysis\<rparr>"
  have 1: "snd (handle_complete_pipeline sample_services Map.empty sample_pipeline_event) = (?c, Some True)"
    unfolding sample_first_run by simp
  have 2: "deduplication_status_of
     (fst (handle_complete_pipeline sample_services Map.empty sample_pipeline_event)) =
     Some (str ''processed'')"
    unfolding sample_first_run sample_analyze_and_report
    by (simp add: deduplication_status_of_def)
  have "same_outcome (fst (handle_complete_pipeline ?g ?c sample_pipeline_event))
          (fst (handle_complete_pipeline sample_services Map.empty sample_pipeline_event))"
    using lookup_fails_same_outcome [of ?g sample_pipeline_event "''%PDF-1.4 resume''" ?c]
    by (simp add: dedup_lookup_fails_def) (simp add: sample_services_def str_def)
  then have 3: "deduplication_status_of (fst (handle_complete_pipeline ?g ?c sample_pipeline_event)) =
      Some (str ''processed'')"
    using 2 by (simp add: same_outcome_status)
  have 4: "str ''processed'' \<noteq> str ''deduplicated''" by (simp add: str_def)
  have h: "check_file_deduplication ?f ?c (str ''resumes'') (str ''uploads/cv.pdf'') =
           check_file_deduplication sample_services ?c (str ''resumes'') (str ''uploads/cv.pdf'')"
  proof -
    have c: "calculate_s3_file_hash ?f b k = calculate_s3_file_hash sample_services b k" for b k
      by (simp add: calculate_s3_file_hash_def calculate_file_hash_def split: option.splits)
    have g: "get_resume_cache ?f = get_resume_cache sample_services"
      by (simp add: get_resume_cache_def fun_eq_iff)
    show ?thesis unfolding check_file_deduplication_def c g by (rule refl)
  qed
  have t: "item_extracted_text sample_cached_item = str ''Jane Doe - Python developer''"
    by (simp add: sample_cached_item_def)
  have a: "analyze_and_report ?f sample_pipeline_event dd (str ''Jane Doe - Python developer'') st =
      ErrorResponse 422 (str ''AI analysis failed: Analysis service is busy. Please try again later.'')"
    for dd st
    unfolding analyze_and_report_def Let_def analyze_resume_vs_job_description_def
    by (simp add: sample_texts sample_pipeline_event_def)
       (simp add: failing_analysis_def str_def)
  have 5: "fst (handle_complete_pipeline ?f ?c sample_pipeline_event) =
     ErrorResponse 422 (str ''AI analysis failed: Analysis service is busy. Please try again later.'')"
    unfolding handle_complete_pipeline_def Let_def sample_event_fields h
    by (simp only: sample_check_hit dedup_result.simps if_True option.case t a fst_conv)
  have 6: "deduplication_status_of (fst (handle_complete_pipeline ?f ?c sample_pipeline_event)) = None"
    unfolding 5 by (simp add: deduplication_status_of_def)
  from 1 2 3 4 5 6 show ?thesis by (intro conjI)
qed

lemma sample_services_same_reports:
  "sample_services\<lparr>create_complete_report_package := (\<lambda>d b f t. Package sample_package)\<rparr> = sample_services"
  by (simp add: sample_services_def)

lemma sample_analysis_stored:
  "handle_complete_analysis sample_services sample_analysis_event =
     SuccessResponse (AnalysisOnly
       \<lparr>analysis_only_summary =
          \<lparr>compatibility_score = PInt 75, missing_keywords_count = 1,
           suggestions_count = 3, strengths_count = 0\<rparr>,
        analysis_reports = StoredReports sample_package, execution_mode = None\<rparr>)"
proof -
  have e: "ev_resume_text sample_analysis_event = str ''Jane Doe - Python developer''"
    "ev_analysis_job_description sample_analysis_event = str ''Python developer with AWS''"
    "ev_analysis_resume_filename sample_analysis_event = None"
    "ev_analysis_job_title sample_analysis_event = None"
    by (simp_all add: sample_analysis_event_def)
  have a: "analyze_resume_vs_job_description sample_services (str ''Jane Doe - Python developer'')
             (str ''Python developer with AWS'') = Inr sample_analysis"
    unfolding analyze_resume_vs_job_description_def
    by (simp add: sample_texts) (simp add: sample_services_def str_def)
  have s: "sample_analysis (str ''compatibility_score'') = Some (PInt 75)"
    by (simp add: sample_analysis_def str_def)
  have b: "analysis_reports_bucket sample_services sample_analysis_event = str ''ats-reports''"
    by (simp add: analysis_reports_bucket_def sample_services_def sample_analysis_event_def)
  have g: "should_generate_reports (str ''ats-reports'')"
    by (simp add: should_generate_reports_def str_def)
  have c: "create_complete_report_package sample_services = (\<lambda>d b f t. Package sample_package)"
    by (simp add: sample_services_def)
  show ?thesis
    unfolding handle_complete_analysis_def Let_def e
    by (simp only: a sum.case s option.case sample_summary b g if_True c report_outcome.case)
qed

theorem report_failure_asymmetry_witness:
  "(\<exists>rid ts err.
      handle_complete_analysis (sample_services\<lparr>create_complete_report_package := failing_reports\<rparr>)
          sample_analysis_event =
        SuccessResponse (AnalysisOnly
          \<lparr>analysis_only_summary =
             \<lparr>compatibility_score = PInt 75, missing_keywords_count = 1,
              suggestions_count = 3, strengths_count = 0\<rparr>,
           analysis_reports = ReportsNote rid ts not_saved_message (Some err),
           execution_mode = Some (str ''local_fallback'')\<rparr>)) \<and>
   (\<exists>m. fst (handle_complete_pipeline (sample_services\<lparr>create_complete_report_package := failing_reports\<rparr>)
               Map.empty sample_pipeline_event) = ErrorResponse 500 m)"
proof -
  let ?good = "\<lambda>(d::pystr \<rightharpoonup> pyval) (b::pystr) (f::pystr) (t::pystr). Package sample_package"
  let ?b = "\<lparr>analysis_only_summary =
          \<lparr>compatibility_score = PInt 75, missing_keywords_count = 1,
           suggestions_count = 3, strengths_count = 0\<rparr>,
        analysis_reports = StoredReports sample_package, execution_mode = None\<rparr>"
  have f: "report_generation_fails failing_reports"
    by (simp add: report_generation_fails_def failing_reports_def)
  have a: "handle_complete_analysis (sample_services\<lparr>create_complete_report_package := ?good\<rparr>)
             sample_analysis_event = SuccessResponse (AnalysisOnly ?b) \<and>
           analysis_reports ?b = StoredReports sample_package"
    unfolding sample_services_same_reports sample_analysis_stored by simp
  obtain pb where p: "fst (handle_complete_pipeline (sample_services\<lparr>create_complete_report_package := ?good\<rparr>)
             Map.empty sample_pipeline_event) = SuccessResponse pb"
    unfolding sample_services_same_reports sample_first_run sample_analyze_and_report by simp
  from report_failure_asymmetry [OF f, where env = sample_services and good = ?good
      and aev = sample_analysis_event and b = ?b and pkg = sample_package
      and cache = Map.empty and pev = sample_pipeline_event and pb = pb] a p
  show ?thesis by simp
qed


section \<open>Properties of the multipart parser\<close>

lemma contains_sublist: "contains sub xs = sublist sub xs"
  by (induction xs) (simp_all add: sublist_Cons_right)

lemma find_sep_Some: "find_sep sep xs = Some (a, b) \<Longrightarrow> xs = a @ sep @ b"
proof (induction xs arbitrary: a b)
  case Nil
  then show ?case by (simp split: if_splits)
next
  case (Cons x xs)
  show ?case
  proof (cases "prefix sep (x # xs)")
    case True
    then have "x # xs = sep @ drop (length sep) (x # xs)"
      by (metis append_eq_conv_conj prefixE)
    with Cons.prems True show ?thesis by simp
  next
    case False
    with Cons.prems obtain a' where "find_sep sep xs = Some (a', b)" "a = x # a'"
      by (auto split: option.splits)
    with Cons.IH show ?thesis by simp
  qed
qed

lemma find_sep_None: "\<not> sublist sep xs \<Longrightarrow> find_sep sep xs = None"
proof (induction xs)
  case Nil
  then show ?case by auto
next
  case (Cons x xs)
  then show ?case by (auto simp: sublist_Cons_right)
qed

lemma prefix_longer:
  assumes "prefix d (xs @ ys)" "length d \<le> length xs"
  shows "prefix d xs"
  using assms by (metis prefix_length_prefix prefixI append.assoc prefix_def)

lemma find_sep_first:
  assumes "d \<noteq> []" "\<not> sublist d (xs @ butlast d)"
  shows "find_sep d (xs @ d @ ys) = Some (xs, ys)"
  using assms(2)
proof (induction xs)
  case Nil
  obtain c cs where d: "d = c # cs" using assms(1) by (cases d) auto
  have "prefix d (d @ ys)" by simp
  then show ?case unfolding d by simp
next
  case (Cons x xs)
  have np: "\<not> prefix d ((x # xs) @ d @ ys)"
  proof
    assume p: "prefix d ((x # xs) @ d @ ys)"
    have "(x # xs) @ d @ ys = ((x # xs) @ butlast d) @ (last d # ys)"
      using assms(1) by (simp add: append_butlast_last_id [symmetric] del: append_butlast_last_id)
    moreover have "length d \<le> length ((x # xs) @ butlast d)" by simp
    ultimately have "prefix d ((x # xs) @ butlast d)" using p prefix_longer by metis
    then have "sublist d ((x # xs) @ butlast d)" by (rule prefix_imp_sublist)
    with Cons.prems show False by simp
  qed
  have "\<not> sublist d (xs @ butlast d)"
    using Cons.prems by (auto simp: sublist_Cons_right)
  from Cons.IH [OF this] np show ?case by simp
qed

lemma sublist_across:
  assumes "nl \<notin> set d" "d \<noteq> []"
  shows "sublist d (us @ nl # vs) = (sublist d us \<or> sublist d vs)"
proof
  assume "sublist d (us @ nl # vs)"
  then obtain ps ss where e: "us @ nl # vs = ps @ d @ ss" by (auto simp: sublist_def)
  consider "length ps + length d \<le> length us" | "length us < length ps"
    | "length ps \<le> length us" "length us < length ps + length d" by linarith
  then show "sublist d us \<or> sublist d vs"
  proof cases
    case 1
    have "us = take (length us) (ps @ d @ ss)" using e by (metis append_eq_conv_conj)
    also have "\<dots> = ps @ d @ take (length us - length ps - length d) ss" using 1 by simp
    finally show ?thesis by (metis sublist_appendI)
  next
    case 2
    have "vs = drop (Suc (length us)) (us @ nl # vs)" by simp
    also have "\<dots> = drop (Suc (length us)) ps @ d @ ss" unfolding e using 2 by simp
    finally show ?thesis by (metis sublist_appendI)
  next
    case 3
    have "nl = (us @ nl # vs) ! length us" by simp
    also have "\<dots> = d ! (length us - length ps)"
    proof -
      have i: "length us - length ps < length d" using 3 by linarith
      have "(ps @ d @ ss) ! length us = (d @ ss) ! (length us - length ps)"
        using 3(1) by (simp add: nth_append)
      also have "\<dots> = d ! (length us - length ps)" using i by (simp add: nth_append)
      finally show ?thesis unfolding e .
    qed
    finally have "nl = d ! (length us - length ps)" .
    moreover have "length us - length ps < length d" using 3 by linarith
    ultimately have "nl \<in> set d" by (metis nth_mem)
    with assms(1) show ?thesis by simp
  qed
next
  assume "sublist d us \<or> sublist d vs"
  then show "sublist d (us @ nl # vs)"
  proof
    assume "sublist d us" then show ?thesis by (metis sublist_append)
  next
    assume "sublist d vs"
    then have "sublist d (nl # vs)" by (simp add: sublist_Cons_right)
    then show ?thesis by (metis sublist_append)
  qed
qed

lemma not_sublist_butlast: "d \<noteq> [] \<Longrightarrow> \<not> sublist d (butlast d)"
  by (metis sublist_length_le length_butlast diff_less length_greater_0_conv not_less zero_less_one)

lemma py_split_found:
  "sep \<noteq> [] \<Longrightarrow> find_sep sep xs = Some (a, b) \<Longrightarrow> py_split sep xs = a # py_split sep b"
  by (subst py_split.simps) simp

lemma py_split_last:
  "find_sep sep xs = None \<Longrightarrow> py_split sep xs = [xs]"
  by (subst py_split.simps) simp

lemma rstrip_chars_head:
  assumes c: "c \<notin> set chars"
  shows "\<exists>ys. rstrip_chars chars (c # xs) = c # ys"
proof -
  let ?P = "\<lambda>c. c \<in> set chars"
  have "\<exists>zs. dropWhile ?P (rev xs @ [c]) = zs @ [c]"
  proof (cases "\<forall>x\<in>set (rev xs). ?P x")
    case True
    then have "dropWhile ?P (rev xs @ [c]) = dropWhile ?P [c]"
      by (intro dropWhile_append2) blast
    then show ?thesis using c by simp
  next
    case False
    then obtain x where "x \<in> set (rev xs)" "\<not> ?P x" by blast
    then have "dropWhile ?P (rev xs @ [c]) = dropWhile ?P (rev xs) @ [c]"
      by (rule dropWhile_append1)
    then show ?thesis by blast
  qed
  then obtain zs where "dropWhile ?P (rev xs @ [c]) = zs @ [c]" by blast
  then show ?thesis by (simp add: rstrip_chars_def)
qed

lemma rstrip_chars_append:
  assumes "set t \<subseteq> set chars"
  shows "rstrip_chars chars (xs @ t) = rstrip_chars chars xs"
proof -
  have "dropWhile (\<lambda>c. c \<in> set chars) (rev t @ rev xs) = dropWhile (\<lambda>c. c \<in> set chars) (rev xs)"
    by (intro dropWhile_append2) (use assms in auto)
  then show ?thesis by (simp add: rstrip_chars_def)
qed

lemma rstrip_chars_id:
  "xs = [] \<or> last xs \<notin> set chars \<Longrightarrow> rstrip_chars chars xs = xs"
  by (cases xs rule: rev_cases) (auto simp: rstrip_chars_def)

lemma utf8_decode_nat_ascii: "\<forall>b\<in>set bs. b < 0x80 \<Longrightarrow> utf8_decode_nat bs = bs"
  by (induction bs) simp_all

lemma utf8_decode_ignore_ascii:
  "\<forall>b\<in>set bs. (of_char b :: nat) < 0x80 \<Longrightarrow> utf8_decode_ignore bs = map of_char bs"
  by (simp add: utf8_decode_ignore_def utf8_decode_nat_ascii)

lemma utf8_encode_nat_ascii: "\<forall>c\<in>set s. c < 0x80 \<Longrightarrow> utf8_encode_nat s = Some s"
  by (induction s) (simp_all add: encode_code_point_def)

lemma delimiter_facts:
  "delimiter \<noteq> []" "CHR 0x0A \<notin> set delimiter" "CHR 0x0D \<notin> set delimiter" "length delimiter = 39"
  by (simp_all add: delimiter_def)

lemma test_content_type_split:
  "py_split (str '';'') test_content_type =
     [str ''multipart/form-data'', str '' boundary=----WebKitFormBoundary7MA4YWxkTrZu0gW'']"
  by (simp add: test_content_type_def str_def py_split.simps)

lemma test_boundary:
  "find_boundary (py_split (str '';'') test_content_type) =
     Some (str ''----WebKitFormBoundary7MA4YWxkTrZu0gW'')"
  unfolding test_content_type_split
  by (simp add: str_def strip_def py_isspace_def strip_chars_def rstrip_chars_def dquote_def)

lemma map_char_of_str: "map char_of (str s) = s"
  by (induction s) (simp_all add: str_def)

lemma test_boundary_bytes:
  "utf8_encode (str ''--'' @ str ''----WebKitFormBoundary7MA4YWxkTrZu0gW'') = Some delimiter"
proof -
  have "utf8_encode_nat (str ''--'' @ str ''----WebKitFormBoundary7MA4YWxkTrZu0gW'') =
          Some (str ''--'' @ str ''----WebKitFormBoundary7MA4YWxkTrZu0gW'')"
    by (rule utf8_encode_nat_ascii) (simp add: str_def)
  then have "utf8_encode (str ''--'' @ str ''----WebKitFormBoundary7MA4YWxkTrZu0gW'') =
          Some (''--'' @ ''----WebKitFormBoundary7MA4YWxkTrZu0gW'')"
    by (simp only: utf8_encode_def option.map map_append map_char_of_str)
  then show ?thesis
    by (simp add: delimiter_def)
qed

lemma test_header_checks:
  "content_type_of (multipart_event body) = test_content_type"
  "prefix (str ''multipart/form-data'') test_content_type"
  "body_bytes (ev_body (multipart_event body)) = Some body"
  by (simp_all add: content_type_of_def multipart_event_def test_content_type_def str_def body_bytes_def)

lemma parse_test_event:
  "parse_multipart_form_data (multipart_event body) = validate_form (scan_parts (py_split delimiter body))"
  unfolding parse_multipart_form_data_def Let_def test_header_checks test_boundary
  by (simp add: test_header_checks test_boundary_bytes) (simp add: str_def)

lemma no_delimiter_in_part:
  assumes h: "\<not> sublist delimiter H" and f: "\<not> sublist delimiter F"
  shows "\<not> sublist delimiter ((H @ crlf @ crlf @ F @ crlf) @ butlast delimiter)"
proof -
  note ac = sublist_across [OF delimiter_facts(2) delimiter_facts(1)]
    sublist_across [OF delimiter_facts(3) delimiter_facts(1)]
  have s: "\<not> sublist delimiter [CHR 0x0D]" "\<not> sublist delimiter []"
    using delimiter_facts(1,4) sublist_length_le by fastforce+
  have e: "(H @ crlf @ crlf @ F @ crlf) @ butlast delimiter =
           (H @ [CHR 0x0D]) @ CHR 0x0A # ([CHR 0x0D] @ CHR 0x0A # ((F @ CHR 0x0D # []) @ CHR 0x0A # butlast delimiter))"
    by (simp add: crlf_def)
  show ?thesis
    unfolding e ac
    using h f s not_sublist_butlast [OF delimiter_facts(1)] by simp
qed

lemma file_headers_clean: "\<not> sublist delimiter file_part_headers"
  unfolding contains_sublist [symmetric]
  by (simp add: file_part_headers_def crlf_def delimiter_def)

lemma text_headers_clean: "\<not> sublist delimiter text_part_headers"
  unfolding contains_sublist [symmetric]
  by (simp add: text_part_headers_def crlf_def delimiter_def)


lemma split_built:
  assumes "\<not> sublist delimiter F" "\<not> sublist delimiter J"
  shows "py_split delimiter (build_multipart F J) =
           [[], file_part_headers @ crlf @ crlf @ F @ crlf,
            text_part_headers @ crlf @ crlf @ J @ crlf, ''--'' @ crlf]"
proof -
  let ?P1 = "file_part_headers @ crlf @ crlf @ F @ crlf"
  let ?P2 = "text_part_headers @ crlf @ crlf @ J @ crlf"
  let ?T = "''--'' @ crlf"
  note d = delimiter_facts(1)
  have n1: "\<not> sublist delimiter (?P1 @ butlast delimiter)"
    using no_delimiter_in_part [OF file_headers_clean assms(1)] by (simp add: crlf_def)
  have n2: "\<not> sublist delimiter (?P2 @ butlast delimiter)"
    using no_delimiter_in_part [OF text_headers_clean assms(2)] by (simp add: crlf_def)
  have f0: "find_sep delimiter (build_multipart F J) = Some ([], ?P1 @ delimiter @ ?P2 @ delimiter @ ?T)"
    using find_sep_first [OF d, of "[]" "?P1 @ delimiter @ ?P2 @ delimiter @ ?T"]
      not_sublist_butlast [OF d]
    by (simp add: build_multipart_def)
  have f1: "find_sep delimiter (?P1 @ delimiter @ ?P2 @ delimiter @ ?T) =
              Some (?P1, ?P2 @ delimiter @ ?T)"
    by (rule find_sep_first [OF d n1])
  have f2: "find_sep delimiter (?P2 @ delimiter @ ?T) = Some (?P2, ?T)"
    by (rule find_sep_first [OF d n2])
  have "\<not> sublist delimiter ?T"
    using sublist_length_le [of delimiter ?T] delimiter_facts(4) by (auto simp: crlf_def)
  then have f3: "find_sep delimiter ?T = None" by (rule find_sep_None)
  show ?thesis
    by (simp only: py_split_found [OF d f0] py_split_found [OF d f1] py_split_found [OF d f2]
        py_split_last [OF f3])
qed

lemma process_part_empty: "process_part st [] = st"
  by (cases st) (simp add: process_part_def bytes_strip_def strip_chars_def rstrip_chars_def)

lemma process_part_closing: "process_part st (''--'' @ crlf) = st"
  by (cases st)
     (simp add: process_part_def bytes_strip_def strip_chars_def rstrip_chars_def crlf_def)

lemma bytes_strip_headers:
  assumes "\<exists>rest. part = crlf @ CHR ''C'' # rest"
  shows "bytes_strip part \<noteq> [] \<and> bytes_strip part \<noteq> ''--''"
proof -
  from assms obtain rest where p: "part = crlf @ CHR ''C'' # rest" by blast
  have "bytes_strip part =
          rstrip_chars [CHR '' '', CHR 0x09, CHR 0x0A, CHR 0x0D, CHR 0x0B, CHR 0x0C] (CHR ''C'' # rest)"
    unfolding p by (simp add: bytes_strip_def strip_chars_def crlf_def)
  moreover have "\<exists>ys. rstrip_chars [CHR '' '', CHR 0x09, CHR 0x0A, CHR 0x0D, CHR 0x0B, CHR 0x0C]
                     (CHR ''C'' # rest) = CHR ''C'' # ys"
    by (rule rstrip_chars_head) simp
  ultimately show ?thesis by auto
qed

lemma file_headers_split:
  "find_sep (crlf @ crlf) (file_part_headers @ crlf @ crlf @ content) = Some (file_part_headers, content)"
proof -
  have "\<not> sublist (crlf @ crlf) (file_part_headers @ butlast (crlf @ crlf))"
    unfolding contains_sublist [symmetric]
    by (simp add: file_part_headers_def crlf_def)
  from find_sep_first [OF _ this, of content] show ?thesis by (simp add: crlf_def)
qed

lemma text_headers_split:
  "find_sep (crlf @ crlf) (text_part_headers @ crlf @ crlf @ content) = Some (text_part_headers, content)"
proof -
  have "\<not> sublist (crlf @ crlf) (text_part_headers @ butlast (crlf @ crlf))"
    unfolding contains_sublist [symmetric]
    by (simp add: text_part_headers_def crlf_def)
  from find_sep_first [OF _ this, of content] show ?thesis by (simp add: crlf_def)
qed

lemma file_headers_text:
  "names_field ''resume'' (utf8_decode_ignore file_part_headers)"
  "re_filename (utf8_decode_ignore file_part_headers) = Some (str ''test.pdf'')"
proof -
  have d: "utf8_decode_ignore file_part_headers = map of_char file_part_headers"
    by (rule utf8_decode_ignore_ascii) (simp add: file_part_headers_def crlf_def)
  show "names_field ''resume'' (utf8_decode_ignore file_part_headers)"
    unfolding d by (simp add: names_field_def file_part_headers_def crlf_def str_def dquote_def)
  show "re_filename (utf8_decode_ignore file_part_headers) = Some (str ''test.pdf'')"
    unfolding d by (simp add: file_part_headers_def crlf_def str_def dquote_def)
qed

lemma text_headers_text:
  "\<not> names_field ''resume'' (utf8_decode_ignore text_part_headers)"
  "\<not> names_field ''pdf'' (utf8_decode_ignore text_part_headers)"
  "names_field ''jobDescription'' (utf8_decode_ignore text_part_headers)"
proof -
  have d: "utf8_decode_ignore text_part_headers = map of_char text_part_headers"
    by (rule utf8_decode_ignore_ascii) (simp add: text_part_headers_def crlf_def)
  show "\<not> names_field ''resume'' (utf8_decode_ignore text_part_headers)"
    "\<not> names_field ''pdf'' (utf8_decode_ignore text_part_headers)"
    "names_field ''jobDescription'' (utf8_decode_ignore text_part_headers)"
    unfolding d by (simp_all add: names_field_def text_part_headers_def crlf_def str_def dquote_def)
qed

lemma rstrip_content: "rstrip_chars crlf_dashes (content @ crlf) = rstrip_chars crlf_dashes content"
  by (rule rstrip_chars_append) (simp add: crlf_def crlf_dashes_def)

lemma process_part_file:
  "process_part (pdf, jd, fn) (file_part_headers @ crlf @ crlf @ F @ crlf) =
     (Some (rstrip_chars crlf_dashes F), jd, str ''test.pdf'')"
proof -
  have "\<exists>rest. file_part_headers @ crlf @ crlf @ F @ crlf = crlf @ CHR ''C'' # rest"
    by (simp add: file_part_headers_def)
  from bytes_strip_headers [OF this] show ?thesis
    unfolding process_part_def
    by (simp add: file_headers_split file_headers_text rstrip_content)
qed

lemma process_part_text:
  "process_part (pdf, jd, fn) (text_part_headers @ crlf @ crlf @ J @ crlf) =
     (pdf, Some (strip (utf8_decode_ignore (rstrip_chars crlf_dashes J))), fn)"
proof -
  have "\<exists>rest. text_part_headers @ crlf @ crlf @ J @ crlf = crlf @ CHR ''C'' # rest"
    by (simp add: text_part_headers_def)
  from bytes_strip_headers [OF this] show ?thesis
    unfolding process_part_def
    by (simp add: text_headers_split text_headers_text rstrip_content)
qed

lemma scan_built:
  assumes "\<not> sublist delimiter F" "\<not> sublist delimiter J"
  shows "scan_parts (py_split delimiter (build_multipart F J)) =
           (Some (rstrip_chars crlf_dashes F),
            Some (strip (utf8_decode_ignore (rstrip_chars crlf_dashes J))), str ''test.pdf'')"
  unfolding split_built [OF assms] scan_parts_def
  by (simp only: foldl.simps process_part_empty process_part_file process_part_text process_part_closing)

lemma parse_built:
  assumes "\<not> sublist delimiter F" "\<not> sublist delimiter J"
  shows "parse_multipart_form_data (multipart_event (build_multipart F J)) =
           validate_form (Some (rstrip_chars crlf_dashes F),
             Some (strip (utf8_decode_ignore (rstrip_chars crlf_dashes J))), str ''test.pdf'')"
  unfolding parse_test_event scan_built [OF assms] ..

lemma strip_ends:
  "strip s = [] \<or> (\<not> py_isspace (hd (strip s)) \<and> \<not> py_isspace (last (strip s)))"
proof (cases "strip s = []")
  case True
  then show ?thesis by simp
next
  case False
  let ?u = "dropWhile py_isspace s"
  let ?v = "dropWhile py_isspace (rev ?u)"
  have t: "strip s = rev ?v" by (simp add: strip_def)
  with False have v: "?v \<noteq> []" by simp
  then have u: "?u \<noteq> []" by (cases "?u") auto
  have "\<not> py_isspace (hd ?v)" using v by (rule hd_dropWhile)
  then have l: "\<not> py_isspace (last (strip s))" unfolding t using v by (simp add: last_rev)
  have "rev ?u = takeWhile py_isspace (rev ?u) @ ?v" by simp
  then have "last (rev ?u) = last ?v" using v by (metis last_appendR)
  then have "last ?v = hd ?u" using u by (simp add: last_rev)
  moreover have "\<not> py_isspace (hd ?u)" using u by (rule hd_dropWhile)
  ultimately have "\<not> py_isspace (hd (strip s))" unfolding t using v by (simp add: hd_rev)
  with l show ?thesis by simp
qed

lemma strip_id:
  assumes "s = [] \<or> (\<not> py_isspace (hd s) \<and> \<not> py_isspace (last s))"
  shows "strip s = s"
proof (cases s)
  case Nil
  then show ?thesis by (simp add: strip_def)
next
  case (Cons a list)
  with assms have h: "\<not> py_isspace a" and l: "\<not> py_isspace (last s)" by simp_all
  have "dropWhile py_isspace s = s" using h Cons by simp
  moreover have "dropWhile py_isspace (rev s) = rev s"
  proof -
    obtain b bs where r: "rev s = b # bs" using Cons by (cases "rev s") auto
    then have "b = last s" by (metis hd_rev list.sel(1))
    with l have "\<not> py_isspace b" by simp
    then show ?thesis unfolding r by simp
  qed
  ultimately show ?thesis by (simp add: strip_def)
qed

lemma strip_strip [simp]: "strip (strip s) = strip s"
  using strip_ends [of s] strip_id [of "strip s"] by blast

lemma parse_via_form_parts:
  "form_parts e = Some parts \<Longrightarrow> parse_multipart_form_data e = validate_form (scan_parts parts)"
  by (auto simp: form_parts_def parse_multipart_form_data_def Let_def
      split: if_splits option.splits)

lemma process_part_no_file:
  "\<not> is_file_part p \<Longrightarrow> fst (process_part (None, jd, fn) p) = None"
  by (auto simp: process_part_def is_file_part_def Let_def split: option.splits)

lemma scan_no_file:
  "\<forall>p\<in>set parts. \<not> is_file_part p \<Longrightarrow> fst (foldl process_part (None, jd, fn) parts) = None"
proof (induction parts arbitrary: jd fn)
  case Nil
  then show ?case by simp
next
  case (Cons p ps)
  obtain jd' fn' where s: "process_part (None, jd, fn) p = (None, jd', fn')"
    using process_part_no_file [of p jd fn] Cons.prems
    by (cases "process_part (None, jd, fn) p") auto
  show ?case using Cons.IH [of jd' fn'] Cons.prems by (simp add: s)
qed

lemma validate_no_file: "fst st = None \<Longrightarrow> validate_form st = Inl PdfRequired"
  by (cases st) (simp add: validate_form_def)

lemma not_multipart:
  "\<not> prefix (str ''multipart/form-data'') (content_type_of e) \<Longrightarrow>
   parse_multipart_form_data (e\<lparr>ev_body := b\<rparr>) = Inl ContentTypeNotMultipart \<and>
   form_parts (e\<lparr>ev_body := b\<rparr>) = None"
  by (simp add: parse_multipart_form_data_def form_parts_def content_type_of_def Let_def)

lemma form_parts_test_event:
  "form_parts (multipart_event body) = Some (py_split delimiter body)"
  unfolding form_parts_def test_header_checks test_boundary
  by (simp add: test_header_checks test_boundary_bytes) (simp add: str_def)

lemma split_text_only:
  assumes "\<not> sublist delimiter J"
  shows "py_split delimiter (text_only_body J) =
           [[], text_part_headers @ crlf @ crlf @ J @ crlf, ''--'' @ crlf]"
proof -
  let ?P2 = "text_part_headers @ crlf @ crlf @ J @ crlf"
  let ?T = "''--'' @ crlf"
  note d = delimiter_facts(1)
  have n2: "\<not> sublist delimiter (?P2 @ butlast delimiter)"
    using no_delimiter_in_part [OF text_headers_clean assms] by (simp add: crlf_def)
  have f0: "find_sep delimiter (text_only_body J) = Some ([], ?P2 @ delimiter @ ?T)"
    using find_sep_first [OF d, of "[]" "?P2 @ delimiter @ ?T"] not_sublist_butlast [OF d]
    by (simp add: text_only_body_def)
  have f2: "find_sep delimiter (?P2 @ delimiter @ ?T) = Some (?P2, ?T)"
    by (rule find_sep_first [OF d n2])
  have "\<not> sublist delimiter ?T"
    using sublist_length_le [of delimiter ?T] delimiter_facts(4) by (auto simp: crlf_def)
  then have f3: "find_sep delimiter ?T = None" by (rule find_sep_None)
  show ?thesis
    by (simp only: py_split_found [OF d f0] py_split_found [OF d f2] py_split_last [OF f3])
qed

lemma text_only_no_file_part:
  "\<forall>p\<in>set [[], text_part_headers @ crlf @ crlf @ J @ crlf, ''--'' @ crlf]. \<not> is_file_part p"
proof -
  have "\<not> is_file_part []" "\<not> is_file_part (''--'' @ crlf)"
    by (simp_all add: is_file_part_def crlf_def lf_def)
  moreover have "\<not> is_file_part (text_part_headers @ crlf @ crlf @ J @ crlf)"
    by (simp add: is_file_part_def text_headers_split text_headers_text)
  ultimately show ?thesis by simp
qed

lemma sample_clean:
  "\<not> sublist delimiter sample_pdf" "\<not> sublist delimiter sample_job_text"
  "\<not> sublist delimiter ''Short job''" "\<not> sublist delimiter (''  '' @ sample_job_text)"
  "\<not> sublist delimiter (sample_pdf @ lf)"
  unfolding contains_sublist [symmetric]
  by (simp_all add: sample_pdf_def sample_job_text_def delimiter_def lf_def)

lemma sample_rstrip:
  "rstrip_chars crlf_dashes sample_pdf = sample_pdf"
  "rstrip_chars crlf_dashes sample_job_text = sample_job_text"
  "rstrip_chars crlf_dashes ''Short job'' = ''Short job''"
  "rstrip_chars crlf_dashes (''  '' @ sample_job_text) = ''  '' @ sample_job_text"
  "rstrip_chars crlf_dashes (sample_pdf @ lf) = sample_pdf"
  by (simp_all add: rstrip_chars_def crlf_dashes_def sample_pdf_def sample_job_text_def lf_def)

lemma sample_decode:
  "utf8_decode_ignore sample_job_text = str sample_job_text"
  "utf8_decode_ignore ''Short job'' = str ''Short job''"
  "utf8_decode_ignore (''  '' @ sample_job_text) = str (''  '' @ sample_job_text)"
  unfolding str_def
  by (rule utf8_decode_ignore_ascii, simp add: sample_job_text_def)+

lemma sample_strip:
  "strip (str sample_job_text) = str sample_job_text"
  "strip (str ''Short job'') = str ''Short job''"
  "strip (str (''  '' @ sample_job_text)) = str sample_job_text"
  by (simp_all add: strip_def str_def py_isspace_def sample_job_text_def)

text \<open>
  Claim C8, as stated, fails for a text part that strips to nothing: that is fewer than
  50 characters, and the error is "Job description is required".
\<close>

theorem multipart_rejection_counterexample:
  "length (strip (utf8_decode_ignore ''   '')) < 50 \<and>
   parse_multipart_form_data (multipart_event (build_multipart sample_pdf ''   '')) =
     Inl JobDescriptionRequired"
proof -
  have d: "utf8_decode_ignore ''   '' = str ''   ''"
    by (simp add: utf8_decode_ignore_def str_def)
  have s: "strip (str ''   '') = []"
    by (simp add: strip_def str_def py_isspace_def)
  have f: "\<not> sublist delimiter sample_pdf" "\<not> sublist delimiter ''   ''"
    unfolding contains_sublist [symmetric] by (simp_all add: sample_pdf_def delimiter_def)
  have r: "rstrip_chars crlf_dashes sample_pdf = sample_pdf"
    "rstrip_chars crlf_dashes ''   '' = ''   ''"
    by (simp_all add: rstrip_chars_def crlf_dashes_def sample_pdf_def)
  have n: "sample_pdf \<noteq> []" by (simp add: sample_pdf_def)
  show ?thesis
    unfolding parse_built [OF f] r d s
    using n by (simp add: validate_form_def)
qed

text \<open>
  Claim C8, amended. A request that gets as far as the split and has no part that the
  parser takes for the file part fails with "PDF file is required". A request with a
  non-empty file content and a job description that is not empty and shorter than 50
  characters after trimming fails with the minimum-length error; so does the body of the
  tests with such a text part. A request whose content type does not start with
  \<open>multipart/form-data\<close> fails with the content-type error whatever its body is, also a
  body that cannot be decoded, and no parts are formed.
\<close>

theorem multipart_rejection:
  "(form_parts e = Some parts \<and> (\<forall>p\<in>set parts. \<not> is_file_part p) \<longrightarrow>
      parse_multipart_form_data e = Inl PdfRequired) \<and>
   (form_parts e = Some parts \<and> scan_parts parts = (Some content, Some description, filename) \<and>
      content \<noteq> [] \<and> description \<noteq> [] \<and> length (strip description) < 50 \<longrightarrow>
      parse_multipart_form_data e = Inl JobDescriptionTooShort) \<and>
   (\<not> sublist delimiter F \<and> \<not> sublist delimiter J \<and> rstrip_chars crlf_dashes F \<noteq> [] \<and>
      strip (utf8_decode_ignore (rstrip_chars crlf_dashes J)) \<noteq> [] \<and>
      length (strip (utf8_decode_ignore (rstrip_chars crlf_dashes J))) < 50 \<longrightarrow>
      parse_multipart_form_data (multipart_event (build_multipart F J)) = Inl JobDescriptionTooShort) \<and>
   (\<not> prefix (str ''multipart/form-data'') (content_type_of e) \<longrightarrow>
      (\<forall>b. parse_multipart_form_data (e\<lparr>ev_body := b\<rparr>) = Inl ContentTypeNotMultipart \<and>
           form_parts (e\<lparr>ev_body := b\<rparr>) = None))"
proof (intro conjI impI allI)
  assume a: "form_parts e = Some parts \<and> (\<forall>p\<in>set parts. \<not> is_file_part p)"
  then have "fst (scan_parts parts) = None"
    unfolding scan_parts_def using scan_no_file by blast
  then show "parse_multipart_form_data e = Inl PdfRequired"
    using a parse_via_form_parts validate_no_file by metis
next
  assume a: "form_parts e = Some parts \<and> scan_parts parts = (Some content, Some description, filename) \<and>
      content \<noteq> [] \<and> description \<noteq> [] \<and> length (strip description) < 50"
  then have "parse_multipart_form_data e = validate_form (Some content, Some description, filename)"
    using parse_via_form_parts by metis
  then show "parse_multipart_form_data e = Inl JobDescriptionTooShort"
    using a by (simp add: validate_form_def)
next
  assume a: "\<not> sublist delimiter F \<and> \<not> sublist delimiter J \<and> rstrip_chars crlf_dashes F \<noteq> [] \<and>
      strip (utf8_decode_ignore (rstrip_chars crlf_dashes J)) \<noteq> [] \<and>
      length (strip (utf8_decode_ignore (rstrip_chars crlf_dashes J))) < 50"
  then have "parse_multipart_form_data (multipart_event (build_multipart F J)) =
      validate_form (Some (rstrip_chars crlf_dashes F),
             Some (strip (utf8_decode_ignore (rstrip_chars crlf_dashes J))), str ''test.pdf'')"
    using parse_built by blast
  then show "parse_multipart_form_data (multipart_event (build_multipart F J)) = Inl JobDescriptionTooShort"
    using a by (simp add: validate_form_def)
next
  fix b assume "\<not> prefix (str ''multipart/form-data'') (content_type_of e)"
  then show "parse_multipart_form_data (e\<lparr>ev_body := b\<rparr>) = Inl ContentTypeNotMultipart"
    "form_parts (e\<lparr>ev_body := b\<rparr>) = None"
    using not_multipart by blast+
qed

theorem multipart_rejection_witness:
  "parse_multipart_form_data (multipart_event (text_only_body sample_job_text)) = Inl PdfRequired \<and>
   parse_multipart_form_data (multipart_event (build_multipart sample_pdf ''Short job'')) =
     Inl JobDescriptionTooShort \<and>
   parse_multipart_form_data
     \<lparr>ev_headers = [str ''content-type'' \<mapsto> str ''application/json''], ev_body = Base64Body None\<rparr> =
     Inl ContentTypeNotMultipart"
proof -
  let ?e1 = "multipart_event (text_only_body sample_job_text)"
  let ?parts = "[[], text_part_headers @ crlf @ crlf @ sample_job_text @ crlf, ''--'' @ crlf]"
  let ?e3 = "\<lparr>ev_headers = [str ''content-type'' \<mapsto> str ''application/json''], ev_body = TextBody []\<rparr>"
  have a: "form_parts ?e1 = Some ?parts \<and> (\<forall>p\<in>set ?parts. \<not> is_file_part p)"
    using form_parts_test_event split_text_only [OF sample_clean(2)] text_only_no_file_part
    by simp
  have c1: "parse_multipart_form_data ?e1 = Inl PdfRequired"
    using multipart_rejection [where e = ?e1 and parts = ?parts, THEN conjunct1] a by blast
  have b: "\<not> sublist delimiter sample_pdf \<and> \<not> sublist delimiter ''Short job'' \<and>
      rstrip_chars crlf_dashes sample_pdf \<noteq> [] \<and>
      strip (utf8_decode_ignore (rstrip_chars crlf_dashes ''Short job'')) \<noteq> [] \<and>
      length (strip (utf8_decode_ignore (rstrip_chars crlf_dashes ''Short job''))) < 50"
    unfolding sample_rstrip sample_decode sample_strip
    using sample_clean by (simp add: sample_pdf_def str_def)
  have c2: "parse_multipart_form_data (multipart_event (build_multipart sample_pdf ''Short job'')) =
     Inl JobDescriptionTooShort"
    using multipart_rejection [where F = sample_pdf and J = "''Short job''",
        THEN conjunct2, THEN conjunct2, THEN conjunct1] b by blast
  have c: "\<not> prefix (str ''multipart/form-data'') (content_type_of ?e3)"
    by (simp add: content_type_of_def str_def)
  have "parse_multipart_form_data (?e3\<lparr>ev_body := Base64Body None\<rparr>) = Inl ContentTypeNotMultipart"
    using multipart_rejection [where e = ?e3,
        THEN conjunct2, THEN conjunct2, THEN conjunct2] c by blast
  then have c3: "parse_multipart_form_data
     \<lparr>ev_headers = [str ''content-type'' \<mapsto> str ''application/json''], ev_body = Base64Body None\<rparr> =
     Inl ContentTypeNotMultipart" by simp
  from c1 c2 c3 show ?thesis by (intro conjI)
qed

text \<open>
  Claim C1, as stated, fails for a job description with leading whitespace: the parser
  returns the trimmed text, not the original.
\<close>

theorem multipart_round_trip_counterexample:
  "50 \<le> length (str (''  '' @ sample_job_text)) \<and>
   parse_multipart_form_data
      (multipart_event (build_multipart sample_pdf (''  '' @ sample_job_text))) =
     Inr \<lparr>pdf_content = sample_pdf, job_description = str sample_job_text,
          original_filename = str ''test.pdf''\<rparr> \<and>
   str sample_job_text \<noteq> str (''  '' @ sample_job_text)"
proof -
  have l: "50 \<le> length (str (''  '' @ sample_job_text))" "\<not> length (str sample_job_text) < 50"
    "str sample_job_text \<noteq> []" "sample_pdf \<noteq> []"
    by (simp_all add: str_def sample_job_text_def sample_pdf_def)
  have n: "str sample_job_text \<noteq> str (''  '' @ sample_job_text)"
    by (simp add: str_def sample_job_text_def)
  show ?thesis
    unfolding parse_built [OF sample_clean(1) sample_clean(4)] sample_rstrip sample_decode sample_strip
    using l n by (simp add: validate_form_def sample_strip)
qed

text \<open>
  The set-valued \<open>rstrip\<close> also removes bytes of the file itself: a file that ends in a
  line feed comes back one byte shorter.
\<close>

lemma file_ending_in_line_feed:
  "parse_multipart_form_data
      (multipart_event (build_multipart (sample_pdf @ lf) sample_job_text)) =
     Inr \<lparr>pdf_content = sample_pdf, job_description = str sample_job_text,
          original_filename = str ''test.pdf''\<rparr>"
proof -
  have l: "\<not> length (str sample_job_text) < 50" "str sample_job_text \<noteq> []" "sample_pdf \<noteq> []"
    by (simp_all add: str_def sample_job_text_def sample_pdf_def)
  show ?thesis
    unfolding parse_built [OF sample_clean(5) sample_clean(2)] sample_rstrip sample_decode sample_strip
    using l by (simp add: validate_form_def sample_strip)
qed

text \<open>
  Claim C1, amended. For file bytes that are not empty, do not contain the delimiter and
  do not end in CR, LF or a hyphen, and for text bytes that decode to a job description
  of at least 50 characters without leading or trailing whitespace, do not contain the
  delimiter and do not end in a hyphen, parsing the body built from them returns the
  exact file bytes and the exact text.
\<close>

theorem multipart_round_trip:
  assumes "F \<noteq> []" and "last F \<notin> set crlf_dashes" and "\<not> sublist delimiter F"
    and "utf8_decode_ignore Jb = J" and "last Jb \<notin> set crlf_dashes" and "\<not> sublist delimiter Jb"
    and "strip J = J" and "50 \<le> length J"
  shows "parse_multipart_form_data (multipart_event (build_multipart F Jb)) =
           Inr \<lparr>pdf_content = F, job_description = J, original_filename = str ''test.pdf''\<rparr>"
proof -
  have f: "rstrip_chars crlf_dashes F = F" using assms(2) by (simp add: rstrip_chars_id)
  have j: "rstrip_chars crlf_dashes Jb = Jb" using assms(5) by (simp add: rstrip_chars_id)
  have "J \<noteq> []" using assms(8) by auto
  then show ?thesis
    unfolding parse_built [OF assms(3,6)] f j assms(4) assms(7)
    using assms(1,7,8) by (simp add: validate_form_def)
qed

theorem multipart_round_trip_witness:
  "parse_multipart_form_data (multipart_event (build_multipart sample_pdf sample_job_text)) =
     Inr \<lparr>pdf_content = sample_pdf, job_description = str sample_job_text,
          original_filename = str ''test.pdf''\<rparr>"
proof -
  have 1: "sample_pdf \<noteq> []" "last sample_pdf \<notin> set crlf_dashes"
    "last sample_job_text \<notin> set crlf_dashes"
    by (simp_all add: sample_pdf_def sample_job_text_def crlf_dashes_def)
  have 2: "50 \<le> length (str sample_job_text)"
    by (simp add: str_def sample_job_text_def)
  show ?thesis
    by (rule multipart_round_trip [OF 1(1,2) sample_clean(1) sample_decode(1) 1(3) sample_clean(2)
          sample_strip(1) 2])
qed

end
